theory Spec2Isabelle
  imports Main "HOL-Library.Sublist" "HOL-Library.AList"
begin

section \<open>GOG library synchronisation: a shallow embedding\<close>

text \<open>
  The development follows the GOG library module of the launcher (class \<open>GOGLibrary\<close>
  with \<open>sync\<close>, \<open>refreshInstalled\<close>, \<open>changeGameInstallPath\<close>, \<open>listUpdateableGames\<close>,
  \<open>checkForLinuxInstallerUpdate\<close>, \<open>checkForGameUpdate\<close>, \<open>gogToUnifiedInfo\<close>, and the
  free function \<open>getGogdlCommand\<close>). Asynchronous calls are run in sequence, the network
  and the session are parameters (record \<open>env\<close>), a thrown exception is the \<open>Inl\<close> branch
  of a sum, and the three persisted stores, the two in-memory maps and the log are fields
  of one state record.
\<close>

subsection \<open>Strings\<close>

text \<open>\<open>Array.prototype.join(sep)\<close> on an array of strings.\<close>

fun join_str :: "string \<Rightarrow> string list \<Rightarrow> string" where
  "join_str sep [] = []"
| "join_str sep [x] = x"
| "join_str sep (x # y # ys) = x @ sep @ join_str sep (y # ys)"

text \<open>
  \<open>String.prototype.replace(pat, rep)\<close> with a string pattern: only the first occurrence
  is replaced (the replacement strings used here contain no \<open>$\<close> pattern).
\<close>

fun replace_first :: "string \<Rightarrow> string \<Rightarrow> string \<Rightarrow> string" where
  "replace_first pat rep [] = (if pat = [] then rep else [])"
| "replace_first pat rep (c # cs) =
     (if prefix pat (c # cs) then rep @ drop (length pat) (c # cs)
      else c # replace_first pat rep cs)"

text \<open>\<open>String(n)\<close> for a non-negative integer: its decimal digits.\<close>

definition digit_char :: "nat \<Rightarrow> char" where
  "digit_char d = ''0123456789'' ! d"

function String_nat :: "nat \<Rightarrow> string" where
  "String_nat n = (if n < 10 then [digit_char n] else String_nat (n div 10) @ [digit_char (n mod 10)])"
  by pat_completeness auto
termination
  by (relation "measure (\<lambda>n. n)") auto

declare String_nat.simps [simp del]

subsection \<open>The command line shown in logs: \<open>getGogdlCommand\<close>\<close>

text \<open>
  The path of the downloader binary, \<open>join(...Object.values(getGOGdlBin()))\<close>, comes from a
  helper outside this module; it is the parameter \<open>gogdlFullPath\<close>. An entry passes the
  filter when it is truthy (a non-empty string) and does not start with \<open>--token\<close>.
\<close>

definition getGogdlCommand :: "string \<Rightarrow> string list \<Rightarrow> string" where
  "getGogdlCommand gogdlFullPath commandParts =
     (let commandParts' = filter (\<lambda>val. val \<noteq> [] \<and> \<not> prefix ''--token'' val) commandParts;
          gogdlFullPath' = (if CHR '' '' \<in> set gogdlFullPath
                            then [CHR 0x22] @ gogdlFullPath @ [CHR 0x22]
                            else gogdlFullPath)
      in join_str '' '' (gogdlFullPath' # commandParts'))"

subsection \<open>Data\<close>

text \<open>
  The type declarations of the module live outside it; the records below carry the fields
  the code reads and writes. A \<open>GameInstall\<close> has the six fields of the install literal
  that \<open>gogToUnifiedInfo\<close> builds (its \<open>version\<close> is \<open>null\<close> there); an \<open>InstalledInfo\<close>,
  the record of the Installed Store, has those and the fields \<open>importGame\<close> adds.
\<close>

record GameInstall =
  version :: "string option"
  executable :: string
  install_path :: string
  install_size :: string
  is_dlc :: bool
  platform :: string

record InstalledInfo = GameInstall +
  appName :: string
  buildId :: string
  installedWithDLCs :: bool
  versionEtag :: "string option"

text \<open>
  An \<open>InstalledInfo\<close> object held by the in-memory installed map is shared with the
  \<open>install\<close> property of the cached game record (\<open>copyObject.install = installedInfo\<close>), and
  \<open>changeGameInstallPath\<close> writes through that property. Such objects live in a heap
  and are named by their address. The install object of a cached record that is not
  installed is shared only with the record pushed to \<open>gamesObjects\<close>, which nothing writes
  to and which is dropped once the array has been written; it is kept by value.
\<close>

type_synonym ref = nat

datatype install_link = Shared ref | Own GameInstall

record about_info =
  description :: "string option"
  shortDescription :: string

record extra_info =
  about :: about_info
  reqs :: "string list"

text \<open>
  The unified record. Its \<open>install\<close> field is a \<open>GameInstall\<close> value in the persisted
  catalog array and an \<open>install_link\<close> in the in-memory library map.
\<close>

record 'i GameInfo =
  runner :: string
  store_url :: string
  developer :: string
  app_name :: string
  art_logo :: "string option"
  art_cover :: string
  art_square :: string
  cloud_save_enabled :: bool
  compatible_apps :: "string list"
  extra :: extra_info
  folder_name :: string
  install :: 'i
  is_game :: bool
  is_installed :: bool
  is_ue_asset :: bool
  is_ue_plugin :: bool
  is_ue_project :: bool
  namespace :: string
  save_folder :: string
  title :: string
  canRunOffline :: bool
  is_mac_native :: bool
  is_linux_native :: bool

text \<open>A catalog entry of the remote API (\<open>GOGGameInfo\<close>): the fields the module reads.\<close>

record GOGGameInfo =
  info_id :: nat
  info_title :: string
  info_slug :: string
  info_url :: string
  info_image :: string
  worksOn_Mac :: bool
  worksOn_Linux :: bool

text \<open>One page of \<open>getFilteredProducts\<close>; the code tests \<open>products\<close> for presence.\<close>

record products_response =
  products :: "GOGGameInfo list option"
  totalPages :: nat
  totalProducts :: nat
  moviesCount :: nat

text \<open>The secondary metadata (gamesdb): \<open>{game: {developers, vertical_cover, summary}, etag}\<close>.\<close>

record gamesdb_developer =
  name :: string

record gamesdb_game =
  developers :: "gamesdb_developer list"
  vertical_cover_url_format :: string
  summary :: "(string \<times> string) list"

record gamesdb_data =
  game :: "gamesdb_game option"
  etag :: "string option"

record gamesdb_response =
  headers_etag :: "string option"
  data :: gamesdb_data

text \<open>The per-title detail document: \<open>_links.boxArtImage.href\<close> when \<open>_links\<close> is there.\<close>

record games_data =
  links_boxArtImage_href :: "string option"

text \<open>The downloads listing of the product API and the build listing.\<close>

record installer =
  os :: string
  installer_version :: string
  language :: string

record product_response =
  downloads_installers :: "installer list option"

record build_item =
  link :: "string option"

record builds_response =
  items :: "build_item list option"

datatype error = AxiosError string | BadStatus nat | TypeError

datatype log_level = Debug | Info | Warning | Error
datatype LogPrefix = Gog | Backend | Legendary
type_synonym log_entry = "log_level \<times> string list \<times> LogPrefix"

text \<open>
  The session and the network. Each \<open>axios.get\<close> is a function of what the request is
  built from; a failed request is \<open>Inl\<close> with the error's message, or \<open>None\<close> where the
  call site catches the failure and carries on with \<open>null\<close>. \<open>meta_request\<close> gives the HTTP
  status the server answers with, before \<open>validateStatus\<close> is applied. \<open>fallBackImage\<close>
  is a constant of the application.
\<close>

record env =
  isLoggedIn :: bool
  getCredentials :: "string option"
  getFilteredProducts :: "string \<Rightarrow> nat \<Rightarrow> string + products_response"
  gamesdb_release :: "string \<Rightarrow> string \<Rightarrow> string option \<Rightarrow> gamesdb_response option"
  games_v2 :: "string \<Rightarrow> games_data option"
  product_api :: "string \<Rightarrow> product_response option"
  builds_api :: "string \<Rightarrow> string \<Rightarrow> string + builds_response"
  meta_request :: "string option \<Rightarrow> string option \<Rightarrow> string + nat"
  fallBackImage :: string

text \<open>The persisted Library Store: the keys \<open>games\<close>, \<open>totalGames\<close>, \<open>totalMovies\<close>.\<close>

record library_store =
  games :: "GameInstall GameInfo list option"
  totalGames :: "nat option"
  totalMovies :: "nat option"

text \<open>
  The two in-memory maps are JavaScript \<open>Map\<close>s: association lists in insertion order,
  where setting an existing key keeps its position (\<open>AList.update\<close>).
\<close>

record state =
  library :: "(string \<times> install_link GameInfo) list"
  installedGames :: "(string \<times> ref) list"
  heap :: "InstalledInfo list"
  libraryStore :: library_store
  installedGamesStore :: "InstalledInfo list option"
  apiInfoCache :: "string \<rightharpoonup> gamesdb_data"
  log :: "log_entry list"

definition logInfo :: "string list \<Rightarrow> LogPrefix \<Rightarrow> state \<Rightarrow> state" where
  "logInfo msg pre s = s\<lparr>log := log s @ [(Info, msg, pre)]\<rparr>"

definition logError :: "string list \<Rightarrow> LogPrefix \<Rightarrow> state \<Rightarrow> state" where
  "logError msg pre s = s\<lparr>log := log s @ [(Error, msg, pre)]\<rparr>"

subsection \<open>The metadata enricher: \<open>getGamesdbData\<close>, \<open>getGamesData\<close>, \<open>gogToUnifiedInfo\<close>\<close>

text \<open>
  \<open>getGamesdbData(store, game_id, etag?)\<close>: the request carries \<open>If-None-Match\<close> when an
  etag is given; a failed request gives \<open>{isUpdated: false, data: {}}\<close>; otherwise the
  response's etag is written into the data.
\<close>

definition getGamesdbData :: "env \<Rightarrow> string \<Rightarrow> string \<Rightarrow> string option \<Rightarrow> bool \<times> gamesdb_data" where
  "getGamesdbData env store game_id etag_arg =
     (let headers = (case etag_arg of Some e \<Rightarrow> if e = [] then None else Some e | None \<Rightarrow> None)
      in case gamesdb_release env store game_id headers of
           None \<Rightarrow> (False, \<lparr>game = None, etag = None\<rparr>)
         | Some response \<Rightarrow>
             (let resEtag = headers_etag response;
                  isUpdated = (etag_arg = resEtag)
              in (isUpdated, (data response)\<lparr>etag := resEtag\<rparr>)))"

text \<open>
  \<open>getGamesData(appName, lang?)\<close>: the query string is \<open>lang ?? '?locale=' + lang\<close>, so a
  call without \<open>lang\<close> asks for \<open>?locale=undefined\<close>; a failed request gives \<open>null\<close>.
\<close>

definition getGamesData :: "env \<Rightarrow> string \<Rightarrow> string option \<Rightarrow> games_data option" where
  "getGamesData env appName_arg lang =
     games_v2 env (appName_arg @ (case lang of Some l \<Rightarrow> l | None \<Rightarrow> ''?locale='' @ ''undefined''))"

text \<open>
  \<open>gogToUnifiedInfo(info, gamesdbData)\<close> returns the unified record; the second component
  is the warnings it logs, in order.
\<close>

definition fallback_warning :: log_entry where
  "fallback_warning =
     (Warning, [''Couldn't get info from api.gog.com, Using fallback vertical image''], Gog)"

definition gogToUnifiedInfo :: "env \<Rightarrow> GOGGameInfo \<Rightarrow> gamesdb_data \<Rightarrow> GameInstall GameInfo \<times> log_entry list" where
  "gogToUnifiedInfo env info gamesdbData =
     (let horizontalCover = ''https:'' @ info_image info @ ''.jpg'';
          (developer_v, verticalCover, description_v, warnings) =
            (case game gamesdbData of
               Some g \<Rightarrow>
                 (join_str '', '' (map name (developers g)),
                  replace_first ''{ext}'' ''jpg''
                    (replace_first ''{formatter}'' [] (vertical_cover_url_format g)),
                  map_of (summary g) ''*'',
                  [])
             | None \<Rightarrow>
                 (let w1 = (Warning,
                            [''Unable to get covers from gamesdb for '' @ info_title info
                               @ ''. Trying to get it from api.gog.com''], Gog)
                  in case getGamesData env (String_nat (info_id info)) None of
                       Some apiData \<Rightarrow>
                         (case links_boxArtImage_href apiData of
                            Some href \<Rightarrow> ([], href, None, [w1])
                          | None \<Rightarrow> ([], fallBackImage env, None, [w1, fallback_warning]))
                     | None \<Rightarrow> ([], fallBackImage env, None, [w1, fallback_warning])))
      in (\<lparr>runner = ''gog'',
           store_url = ''https://gog.com'' @ info_url info,
           developer = developer_v,
           app_name = String_nat (info_id info),
           art_logo = None,
           art_cover = horizontalCover,
           art_square = verticalCover,
           cloud_save_enabled = False,
           compatible_apps = [],
           extra = \<lparr>about = \<lparr>description = description_v, shortDescription = []\<rparr>, reqs = []\<rparr>,
           folder_name = [],
           install = \<lparr>version = None, executable = [], install_path = [],
                      install_size = [], is_dlc = False, platform = []\<rparr>,
           is_game = True,
           is_installed = False,
           is_ue_asset = False,
           is_ue_plugin = False,
           is_ue_project = False,
           namespace = info_slug info,
           save_folder = [],
           title = info_title info,
           canRunOffline = True,
           is_mac_native = worksOn_Mac info,
           is_linux_native = worksOn_Linux info\<rparr>, warnings))"

subsection \<open>The sync orchestrator: \<open>refreshInstalled\<close> and \<open>sync\<close>\<close>

text \<open>
  \<open>refreshInstalled\<close>: the installed map is cleared and refilled from the Installed Store;
  every record read from the store is a new object.
\<close>

definition refreshInstalled :: "state \<Rightarrow> state" where
  "refreshInstalled s =
     (let installedArray = (case installedGamesStore s of Some a \<Rightarrow> a | None \<Rightarrow> [])
      in fold (\<lambda>value s'. s'\<lparr>heap := heap s' @ [value],
                                 installedGames := AList.update (appName value) (length (heap s')) (installedGames s')\<rparr>)
              installedArray (s\<lparr>installedGames := []\<rparr>))"

text \<open>
  The page loop \<open>for (let page = 2; page <= numberOfPages; page++)\<close>. The request of a
  later page is not guarded: its failure leaves \<open>sync\<close> as an exception.
\<close>

function sync_pages :: "env \<Rightarrow> string \<Rightarrow> nat \<Rightarrow> nat \<Rightarrow> GOGGameInfo list \<times> state \<Rightarrow> error + GOGGameInfo list \<times> state" where
  "sync_pages env token numberOfPages page (gameApiArray, s) =
     (if page \<le> numberOfPages then
        (let s' = logInfo [''Getting data for page'', String_nat page] Gog s
         in case getFilteredProducts env token page of
              Inl e \<Rightarrow> Inl (AxiosError e)
            | Inr pageData \<Rightarrow>
                sync_pages env token numberOfPages (Suc page)
                  (case products pageData of
                     Some ps \<Rightarrow> (gameApiArray @ ps, s')
                   | None \<Rightarrow> (gameApiArray, s')))
      else Inr (gameApiArray, s))"
  by pat_completeness auto
termination
  by (relation "measure (\<lambda>(env, token, numberOfPages, page, acc). Suc numberOfPages - page)") auto

declare sync_pages.simps [simp del]

text \<open>\<open>Object.assign({}, unifiedObject)\<close>: a new record with every property copied.\<close>

definition Object_assign :: "GameInstall GameInfo \<Rightarrow> install_link GameInfo" where
  "Object_assign u =
     \<lparr>runner = runner u, store_url = store_url u, developer = developer u,
      app_name = app_name u, art_logo = art_logo u, art_cover = art_cover u,
      art_square = art_square u, cloud_save_enabled = cloud_save_enabled u,
      compatible_apps = compatible_apps u, extra = extra u, folder_name = folder_name u,
      install = Own (install u), is_game = is_game u, is_installed = is_installed u,
      is_ue_asset = is_ue_asset u, is_ue_plugin = is_ue_plugin u,
      is_ue_project = is_ue_project u, namespace = namespace u, save_folder = save_folder u,
      title = title u, canRunOffline = canRunOffline u, is_mac_native = is_mac_native u,
      is_linux_native = is_linux_native u\<rparr>"

text \<open>
  The first half of the body of \<open>for (const game of gameApiArray)\<close>: the unified record
  of the entry. It is the record of the previously persisted array whose \<open>app_name\<close> is
  the entry's key when there is one; otherwise it is built from the cached secondary
  metadata, which is fetched and cached first when the cache has none.
\<close>

definition unified_for :: "env \<Rightarrow> GameInstall GameInfo list option \<Rightarrow> GOGGameInfo
    \<Rightarrow> state \<Rightarrow> GameInstall GameInfo \<times> state" where
  "unified_for env gamesArray g s =
     (let key = String_nat (info_id g)
      in case (case gamesArray of
                 Some arr \<Rightarrow> find (\<lambda>value. app_name value = key) arr
               | None \<Rightarrow> None) of
           Some u \<Rightarrow> (u, s)
         | None \<Rightarrow>
             (let (apiData, s') =
                    (case apiInfoCache s key of
                       Some d \<Rightarrow> (d, s)
                     | None \<Rightarrow>
                         (let d = snd (getGamesdbData env ''gog'' key None)
                          in (d, s\<lparr>apiInfoCache := (apiInfoCache s)(key \<mapsto> d)\<rparr>)));
                  (u, warnings) = gogToUnifiedInfo env g apiData
              in (u, s'\<lparr>log := log s' @ warnings\<rparr>)))"

text \<open>
  The copy that goes into the library map: \<open>Object.assign({}, unifiedObject)\<close>, with
  \<open>is_installed\<close> and \<open>install\<close> set on the copy when the installed map has the title.
\<close>

definition attach_installed :: "ref option \<Rightarrow> GameInstall GameInfo \<Rightarrow> install_link GameInfo" where
  "attach_installed installedInfo unifiedObject =
     (let copyObject = Object_assign unifiedObject
      in case installedInfo of
           Some r \<Rightarrow> copyObject\<lparr>is_installed := True, install := Shared r\<rparr>
         | None \<Rightarrow> copyObject)"

text \<open>
  The second half of the body: the record pushed to \<open>gamesObjects\<close> is \<open>unifiedObject\<close>;
  the record put into the library map is the copy.
\<close>

definition sync_game :: "env \<Rightarrow> GameInstall GameInfo list option \<Rightarrow> GOGGameInfo
    \<Rightarrow> GameInstall GameInfo list \<times> state \<Rightarrow> GameInstall GameInfo list \<times> state" where
  "sync_game env gamesArray g = (\<lambda>(gamesObjects, s).
     (let key = String_nat (info_id g);
          (unifiedObject, s1) = unified_for env gamesArray g s;
          installedInfo = map_of (installedGames s1) key;
          copyObject = attach_installed installedInfo unifiedObject
      in (gamesObjects @ [unifiedObject],
          s1\<lparr>library := AList.update key copyObject (library s1)\<rparr>)))"

fun sync_games :: "env \<Rightarrow> GameInstall GameInfo list option \<Rightarrow> GOGGameInfo list
    \<Rightarrow> GameInstall GameInfo list \<times> state \<Rightarrow> GameInstall GameInfo list \<times> state" where
  "sync_games env gamesArray [] acc = acc"
| "sync_games env gamesArray (g # gs) acc = sync_games env gamesArray gs (sync_game env gamesArray g acc)"

text \<open>
  The catalog of \<open>sync\<close>, from the answer to the first request: \<open>gameApiArray\<close> stays
  empty when that answer has no \<open>products\<close>.
\<close>

definition sync_catalog :: "env \<Rightarrow> string \<Rightarrow> products_response \<Rightarrow> state \<Rightarrow> error + GOGGameInfo list \<times> state" where
  "sync_catalog env token games_resp s =
     (case products games_resp of
        Some ps \<Rightarrow>
          sync_pages env token (totalPages games_resp) 2
            (ps, logInfo [''Number of library pages:'', String_nat (totalPages games_resp)] Gog s)
      | None \<Rightarrow> Inr ([], s))"

text \<open>
  \<open>sync\<close>. The first request has no \<open>page\<close> parameter; it is page 1 of the catalog.
\<close>

definition sync :: "env \<Rightarrow> state \<Rightarrow> error + state" where
  "sync env s0 =
     (if \<not> isLoggedIn env then Inr s0
      else
        (let s1 = refreshInstalled s0
         in case getCredentials env of
              None \<Rightarrow> Inr s1
            | Some access_token \<Rightarrow>
                (let s2 = logInfo [''Getting GOG library''] Gog s1
                 in case getFilteredProducts env access_token 1 of
                      Inl e \<Rightarrow>
                        Inr (logError [''There was an error Loading games library''] Gog
                              (logError [''There was an error getting games library data'', e] Gog s2))
                    | Inr games_resp \<Rightarrow>
                        (case sync_catalog env access_token games_resp s2 of
                           Inl e \<Rightarrow> Inl e
                         | Inr (gameApiArray, s3) \<Rightarrow>
                             (let gamesArray = games (libraryStore s3);
                                  (gamesObjects, s4) = sync_games env gamesArray gameApiArray ([], s3);
                                  s5 = s4\<lparr>libraryStore :=
                                          (libraryStore s4)\<lparr>games := Some gamesObjects,
                                                             totalGames := Some (totalProducts games_resp),
                                                             totalMovies := Some (moviesCount games_resp)\<rparr>\<rparr>
                              in Inr (logInfo [''Saved games data''] Gog s5))))))"

text \<open>\<open>getGameInfo(slug)\<close>: the cached record of the library map.\<close>

definition getGameInfo :: "state \<Rightarrow> string \<Rightarrow> install_link GameInfo option" where
  "getGameInfo s slug = map_of (library s) slug"

subsection \<open>Changing the install path\<close>

text \<open>\<open>Array.prototype.findIndex\<close>; \<open>None\<close> stands for \<open>-1\<close>.\<close>

fun findIndex :: "('a \<Rightarrow> bool) \<Rightarrow> 'a list \<Rightarrow> nat option" where
  "findIndex P [] = None"
| "findIndex P (x # xs) = (if P x then Some 0 else map_option Suc (findIndex P xs))"

text \<open>
  \<open>changeGameInstallPath(appName, newInstallPath)\<close>. \<open>installedArray[-1]\<close> is
  \<open>undefined\<close>, so a title missing from the Installed Store raises a \<open>TypeError\<close> at the
  first assignment, and a title missing from the library map raises one at the second;
  either happens before anything that outlives the call has been written. The second
  assignment writes through the \<open>install\<close> property of the cached record.
\<close>

definition changeGameInstallPath :: "string \<Rightarrow> string \<Rightarrow> state \<Rightarrow> error + state" where
  "changeGameInstallPath appName_arg newInstallPath s =
     (let cachedGameData = map_of (library s) appName_arg;
          installedArray = (case installedGamesStore s of Some a \<Rightarrow> a | None \<Rightarrow> [])
      in case findIndex (\<lambda>value. appName value = appName_arg) installedArray of
           None \<Rightarrow> Inl TypeError
         | Some gameIndex \<Rightarrow>
             (let installedArray' =
                    installedArray[gameIndex := (installedArray ! gameIndex)\<lparr>install_path := newInstallPath\<rparr>]
              in case cachedGameData of
                   None \<Rightarrow> Inl TypeError
                 | Some c \<Rightarrow>
                     (let s1 = (case install c of
                                  Shared r \<Rightarrow>
                                    s\<lparr>heap := (heap s)[r := (heap s ! r)\<lparr>install_path := newInstallPath\<rparr>]\<rparr>
                                | Own i \<Rightarrow>
                                    s\<lparr>library :=
                                        AList.update appName_arg
                                          (c\<lparr>install := Own (i\<lparr>install_path := newInstallPath\<rparr>)\<rparr>)
                                          (library s)\<rparr>)
                      in Inr (s1\<lparr>installedGamesStore := Some installedArray'\<rparr>))))"

subsection \<open>The update checker\<close>

text \<open>
  \<open>getProductApi(appName, expand?)\<close>: the raw response, \<open>null\<close> when the request failed.
\<close>

definition getProductApi :: "env \<Rightarrow> string \<Rightarrow> string list option \<Rightarrow> product_response option" where
  "getProductApi env appName_arg expand =
     (let isExpanded = (case expand of Some ex \<Rightarrow> 0 < length ex | None \<Rightarrow> False);
          expandString = ''?expand='' @ (if isExpanded
                                            then join_str '','' (case expand of Some ex \<Rightarrow> ex | None \<Rightarrow> [])
                                            else [])
      in product_api env (appName_arg @ (if isExpanded then expandString else [])))"

text \<open>
  The loop of \<open>checkForLinuxInstallerUpdate\<close> over the installers: the first one whose
  \<open>os\<close> is \<open>linux\<close> decides; when there is none the function runs off its end and the
  result is \<open>undefined\<close> (\<open>None\<close>).
\<close>

fun linux_installer_check :: "installer list \<Rightarrow> string option \<Rightarrow> bool option" where
  "linux_installer_check [] version_arg = None"
| "linux_installer_check (i # rest) version_arg =
     (if os i = ''linux'' then Some (Some (installer_version i) = version_arg)
      else linux_installer_check rest version_arg)"

text \<open>
  \<open>checkForLinuxInstallerUpdate(appName, version)\<close>. Iterating over an \<open>installers\<close> that
  is \<open>undefined\<close> raises a \<open>TypeError\<close>.
\<close>

definition checkForLinuxInstallerUpdate :: "env \<Rightarrow> string \<Rightarrow> string option \<Rightarrow> error + bool option" where
  "checkForLinuxInstallerUpdate env appName_arg version_arg =
     (case getProductApi env appName_arg (Some [''downloads'']) of
        None \<Rightarrow> Inr (Some False)
      | Some response \<Rightarrow>
          (case downloads_installers response of
             None \<Rightarrow> Inl TypeError
           | Some installers \<Rightarrow> Inr (linux_installer_check installers version_arg)))"

text \<open>
  \<open>checkForGameUpdate(appName, etag, platform)\<close>. Neither request is guarded. The
  metadata request is sent with \<open>If-None-Match\<close> when the etag is truthy, and
  \<open>validateStatus\<close> lets only 200 and 304 through; any other status makes the request fail.
\<close>

definition metaUrl_of :: "build_item list \<Rightarrow> string option" where
  "metaUrl_of its = (case its of [] \<Rightarrow> None | i # _ \<Rightarrow> link i)"

definition if_none_match :: "string option \<Rightarrow> string option" where
  "if_none_match etag_arg = (case etag_arg of Some e \<Rightarrow> if e = [] then None else Some e | None \<Rightarrow> None)"

definition validateStatus :: "nat \<Rightarrow> bool" where
  "validateStatus status = (status = 200 \<or> status = 304)"

definition checkForGameUpdate :: "env \<Rightarrow> string \<Rightarrow> string option \<Rightarrow> string \<Rightarrow> error + bool" where
  "checkForGameUpdate env appName_arg etag_arg platform_arg =
     (case builds_api env appName_arg platform_arg of
        Inl e \<Rightarrow> Inl (AxiosError e)
      | Inr buildData \<Rightarrow>
          (case items buildData of
             None \<Rightarrow> Inl TypeError
           | Some its \<Rightarrow>
               (let metaUrl = metaUrl_of its;
                    headers = if_none_match etag_arg
                in case meta_request env metaUrl headers of
                     Inl e \<Rightarrow> Inl (AxiosError e)
                   | Inr status \<Rightarrow>
                       if validateStatus status then Inr (status = 200) else Inl (BadStatus status))))"

text \<open>
  The body of the loop of \<open>listUpdateableGames\<close>: whether the title is pushed to
  \<open>updateable\<close>. A Linux title is pushed when the result of its check is falsy (\<open>false\<close>
  or \<open>undefined\<close>); any other title when \<open>checkForGameUpdate\<close> says so.
\<close>

definition updateable_step :: "env \<Rightarrow> InstalledInfo \<Rightarrow> error + bool" where
  "updateable_step env g =
     (if platform g = ''linux'' then
        (case checkForLinuxInstallerUpdate env (appName g) (version g) of
           Inl e \<Rightarrow> Inl e
         | Inr res \<Rightarrow> Inr (\<not> (res = Some True)))
      else checkForGameUpdate env (appName g) (versionEtag g) (platform g))"

fun updateable_loop :: "env \<Rightarrow> InstalledInfo list \<Rightarrow> string list \<Rightarrow> error + string list" where
  "updateable_loop env [] updateable = Inr updateable"
| "updateable_loop env (g # rest) updateable =
     (case updateable_step env g of
        Inl e \<Rightarrow> Inl e
      | Inr push \<Rightarrow>
          updateable_loop env rest (if push then updateable @ [appName g] else updateable))"

text \<open>\<open>Array.from(this.installedGames.values())\<close>: the installed records, in map order.\<close>

definition installed_values :: "state \<Rightarrow> InstalledInfo list" where
  "installed_values s = map (\<lambda>(k, r). heap s ! r) (installedGames s)"

definition listUpdateableGames :: "env \<Rightarrow> state \<Rightarrow> error + string list \<times> state" where
  "listUpdateableGames env s =
     (case updateable_loop env (installed_values s) [] of
        Inl e \<Rightarrow> Inl e
      | Inr updateable \<Rightarrow>
          Inr (updateable,
               logInfo [''Found '' @ String_nat (length updateable) @ '' game(s) to update''] Gog s))"

subsection \<open>Notions used to state the properties\<close>

text \<open>
  The products of one catalog page as the server answers it (none when the answer has no
  product list or the request fails), the pages \<open>sync\<close> asks for (the first one, then
  2 up to the reported total), and the key of a catalog entry, \<open>String(game.id)\<close>.
\<close>

definition page_products :: "env \<Rightarrow> string \<Rightarrow> nat \<Rightarrow> GOGGameInfo list" where
  "page_products env token page =
     (case getFilteredProducts env token page of
        Inr r \<Rightarrow> (case products r of Some ps \<Rightarrow> ps | None \<Rightarrow> [])
      | Inl e \<Rightarrow> [])"

definition catalog_pages :: "nat \<Rightarrow> nat list" where
  "catalog_pages numberOfPages = 1 # [2..<Suc numberOfPages]"

definition game_key :: "GOGGameInfo \<Rightarrow> string" where
  "game_key g = String_nat (info_id g)"

definition merged_catalog :: "env \<Rightarrow> string \<Rightarrow> nat \<Rightarrow> GOGGameInfo list" where
  "merged_catalog env token numberOfPages =
     concat (map (page_products env token) (catalog_pages numberOfPages))"

text \<open>The sum of the product counts of pages 1 to the reported total.\<close>

definition page_count_sum :: "env \<Rightarrow> string \<Rightarrow> nat \<Rightarrow> nat" where
  "page_count_sum env token numberOfPages =
     sum_list (map (\<lambda>p. length (page_products env token p)) [1..<Suc numberOfPages])"

text \<open>
  The catalog array in the Library Store after a call (empty when the call raised or the
  key is not set), and two calls of \<open>sync\<close> in succession.
\<close>

definition persisted_games :: "error + state \<Rightarrow> GameInstall GameInfo list" where
  "persisted_games res =
     (case res of
        Inr s' \<Rightarrow> (case games (libraryStore s') of Some arr \<Rightarrow> arr | None \<Rightarrow> [])
      | Inl e \<Rightarrow> [])"

definition sync_twice :: "env \<Rightarrow> state \<Rightarrow> error + state" where
  "sync_twice env s = (case sync env s of Inr s1 \<Rightarrow> sync env s1 | Inl e \<Rightarrow> Inl e)"

text \<open>The install literal of a freshly built unified record.\<close>

definition blank_install :: GameInstall where
  "blank_install = \<lparr>version = None, executable = [], install_path = [],
                     install_size = [], is_dlc = False, platform = []\<rparr>"

text \<open>The value of a decimal numeral, to read \<open>String_nat\<close> back.\<close>

definition digit_val :: "char \<Rightarrow> nat" where
  "digit_val c = of_char c - 48"

definition nat_of_digits :: "string \<Rightarrow> nat" where
  "nat_of_digits cs = foldl (\<lambda>a c. 10 * a + digit_val c) 0 cs"

subsection \<open>A concrete scenario\<close>

text \<open>
  Two owned titles on two catalog pages; the first is installed from a Linux installer
  of version 1.0 while the store lists 1.1; the second is a Windows title. Nothing has
  been synchronised yet.
\<close>

definition ex_game1 :: GOGGameInfo where
  "ex_game1 = \<lparr>info_id = 7, info_title = ''Alpha'', info_slug = ''alpha'', info_url = ''/game/alpha'',
     info_image = ''//images.gog.com/a'', worksOn_Mac = False, worksOn_Linux = True\<rparr>"

definition ex_game2 :: GOGGameInfo where
  "ex_game2 = \<lparr>info_id = 12, info_title = ''Beta'', info_slug = ''beta'', info_url = ''/game/beta'',
     info_image = ''//images.gog.com/b'', worksOn_Mac = True, worksOn_Linux = False\<rparr>"

definition ex_installed :: InstalledInfo where
  "ex_installed = \<lparr>version = Some ''1.0'', executable = [], install_path = ''/games/alpha'',
     install_size = ''1 GB'', is_dlc = False, platform = ''linux'', appName = ''7'',
     buildId = ''b1'', installedWithDLCs = False, versionEtag = None\<rparr>"

definition ex_page :: "nat \<Rightarrow> string + products_response" where
  "ex_page page =
     (if page = 1 then Inr \<lparr>products = Some [ex_game1], totalPages = 2, totalProducts = 2, moviesCount = 0\<rparr>
      else if page = 2 then Inr \<lparr>products = Some [ex_game2], totalPages = 2, totalProducts = 2, moviesCount = 0\<rparr>
      else Inl ''Request failed with status code 404'')"

definition ex_listing :: product_response where
  "ex_listing = \<lparr>downloads_installers =
     Some [\<lparr>os = ''windows'', installer_version = ''1.1'', language = ''en''\<rparr>,
           \<lparr>os = ''linux'', installer_version = ''1.1'', language = ''en''\<rparr>]\<rparr>"

definition ex_env :: env where
  "ex_env = \<lparr>isLoggedIn = True, getCredentials = Some ''tok'',
     getFilteredProducts = (\<lambda>token. ex_page),
     gamesdb_release = (\<lambda>store game_id headers. None),
     games_v2 = (\<lambda>url. None),
     product_api = (\<lambda>url. if url = ''7?expand=downloads'' then Some ex_listing else None),
     builds_api = (\<lambda>app plat. Inr \<lparr>items = Some [\<lparr>link = Some ''https://cdn/meta''\<rparr>]\<rparr>),
     meta_request = (\<lambda>url headers. Inr (if headers = Some ''e1'' then 304 else 200)),
     fallBackImage = ''fallback.jpg''\<rparr>"

definition ex_state :: state where
  "ex_state = \<lparr>library = [], installedGames = [], heap = [],
     libraryStore = \<lparr>games = None, totalGames = None, totalMovies = None\<rparr>,
     installedGamesStore = Some [ex_installed], apiInfoCache = Map.empty, log = []\<rparr>"

text \<open>The same session with the catalog request failing, and with no downloads listing.\<close>

definition ex_env_offline :: env where
  "ex_env_offline = ex_env\<lparr>getFilteredProducts := (\<lambda>token page. Inl ''Network Error''),
                           product_api := (\<lambda>url. None)\<rparr>"


text \<open>The in-memory state once the installed map is loaded.\<close>

definition ex_loaded :: state where
  "ex_loaded = ex_state\<lparr>heap := [ex_installed], installedGames := [(''7'', 0)]\<rparr>"

text \<open>The in-memory state once the first title has been synchronised as well.\<close>

definition ex_cached :: "install_link GameInfo" where
  "ex_cached = (Object_assign (fst (gogToUnifiedInfo ex_env ex_game1 \<lparr>game = None, etag = None\<rparr>)))
                 \<lparr>is_installed := True, install := Shared 0\<rparr>"

definition ex_synced :: state where
  "ex_synced = ex_loaded\<lparr>library := [(''7'', ex_cached)]\<rparr>"

text \<open>A catalog that lists the identifier 7 twice, under two titles, on its only page.\<close>

definition ex_env_dup :: env where
  "ex_env_dup = ex_env\<lparr>getFilteredProducts := (\<lambda>token page.
      if page = 1
      then Inr \<lparr>products = Some [ex_game1, ex_game1\<lparr>info_title := ''Gamma''\<rparr>],
                totalPages = 1, totalProducts = 2, moviesCount = 0\<rparr>
      else Inl ''Request failed with status code 404'')\<rparr>"

text \<open>
  Two answers of the catalog request that do not agree with themselves: one product on a
  first page that reports a total of zero pages, and a first page without a product list
  before a second page that has one.
\<close>

definition ex_answer_zero :: products_response where
  "ex_answer_zero = \<lparr>products = Some [ex_game1], totalPages = 0, totalProducts = 1, moviesCount = 0\<rparr>"

definition ex_env_zero :: env where
  "ex_env_zero = ex_env\<lparr>getFilteredProducts := (\<lambda>token page.
      if page = 1 then Inr ex_answer_zero else Inl ''Request failed with status code 404'')\<rparr>"

definition ex_answer_noprod :: products_response where
  "ex_answer_noprod = \<lparr>products = None, totalPages = 2, totalProducts = 1, moviesCount = 0\<rparr>"

definition ex_env_noprod :: env where
  "ex_env_noprod = ex_env\<lparr>getFilteredProducts := (\<lambda>token page.
      if page = 1 then Inr ex_answer_noprod
      else if page = 2 then Inr \<lparr>products = Some [ex_game2], totalPages = 2, totalProducts = 1, moviesCount = 0\<rparr>
      else Inl ''Request failed with status code 404'')\<rparr>"

section \<open>Properties\<close>

subsection \<open>The redacted command line\<close>

lemma sublist_split_at:
  assumes "c \<notin> set w" and "sublist w (p @ c # r)"
  shows "sublist w p \<or> sublist w r"
proof -
  from assms(2) obtain ps ss where eq: "p @ c # r = ps @ w @ ss"
    by (auto simp: sublist_def)
  then consider us where "p = ps @ us" "us @ c # r = w @ ss"
    | us where "p @ us = ps" "c # r = us @ w @ ss"
    by (auto simp: append_eq_append_conv2)
  then show ?thesis
  proof cases
    case 1
    from 1(2) consider vs where "us = w @ vs" | vs where "us @ vs = w" "c # r = vs @ ss"
      by (auto simp: append_eq_append_conv2)
    then show ?thesis
    proof cases
      case 1
      with \<open>p = ps @ us\<close> show ?thesis by (auto simp: sublist_def)
    next
      case 2
      with assms(1) have "vs = []" by (cases vs) auto
      with 2 \<open>p = ps @ us\<close> have "p = ps @ w" by simp
      then show ?thesis by simp
    qed
  next
    case 2
    show ?thesis
    proof (cases us)
      case Nil
      with 2(2) assms(1) have "w = []" by (cases w) auto
      then show ?thesis by simp
    next
      case (Cons u us')
      with 2(2) have "r = us' @ w @ ss" by simp
      then show ?thesis by (auto simp: sublist_def)
    qed
  qed
qed

lemma no_secret_quoted:
  assumes "\<not> sublist ''SECRET'' p"
  shows "\<not> sublist ''SECRET'' (if CHR '' '' \<in> set p then [CHR 0x22] @ p @ [CHR 0x22] else p)"
proof (cases "CHR '' '' \<in> set p")
  case False
  with assms show ?thesis by simp
next
  case True
  have q: "CHR 0x22 \<notin> set ''SECRET''" by simp
  have e: "\<not> sublist ''SECRET'' []" by simp
  have "\<not> sublist ''SECRET'' (p @ CHR 0x22 # [])"
    using sublist_split_at[OF q, of p "[]"] assms e by blast
  then have "\<not> sublist ''SECRET'' ([] @ CHR 0x22 # (p @ CHR 0x22 # []))"
    using sublist_split_at[OF q, of "[]" "p @ CHR 0x22 # []"] e by blast
  with True show ?thesis by simp
qed

lemma no_secret_cmd:
  assumes "\<not> sublist ''SECRET'' q"
  shows "\<not> sublist ''SECRET'' (q @ '' info 123 --lang=en-US'')"
proof -
  have sp: "CHR '' '' \<notin> set ''SECRET''" by simp
  have r: "\<not> sublist ''SECRET'' ''info 123 --lang=en-US''" by code_simp
  have "\<not> sublist ''SECRET'' (q @ CHR '' '' # ''info 123 --lang=en-US'')"
    using sublist_split_at[OF sp, of q "''info 123 --lang=en-US''"] assms r by blast
  then show ?thesis by simp
qed

lemma getGogdlCommand_example:
  "getGogdlCommand p [''info'', ''123'', ''--token=SECRET'', ''--lang=en-US'']
     = (if CHR '' '' \<in> set p then [CHR 0x22] @ p @ [CHR 0x22] else p) @ '' info 123 --lang=en-US''"
  by (simp add: getGogdlCommand_def)

lemma getGogdlCommand_parts:
  "\<exists>parts. getGogdlCommand p args
              = join_str '' '' ((if CHR '' '' \<in> set p then [CHR 0x22] @ p @ [CHR 0x22] else p) # parts)
          \<and> subseq parts args \<and> (\<forall>a \<in> set parts. \<not> prefix ''--token'' a)"
  unfolding getGogdlCommand_def Let_def
  by (rule exI[of _ "filter (\<lambda>val. val \<noteq> [] \<and> \<not> prefix ''--token'' val) args"]) auto

lemma getGogdlCommand_token_value:
  "getGogdlCommand p (xs @ [''--token'' @ t1] @ ys) = getGogdlCommand p (xs @ [''--token'' @ t2] @ ys)"
  by (simp add: getGogdlCommand_def)

text \<open>
  Claim C5. For every argument vector the command string is the binary path (quoted when
  it has a space) followed by arguments of the vector, in order, none of which starts
  with \<open>--token\<close>. For \<open>['info','123','--token=SECRET','--lang=en-US']\<close> it contains
  \<open>info 123 --lang=en-US\<close> and, unless the path of the binary itself does, it does not
  contain \<open>SECRET\<close>. Two argument vectors that differ only in what follows \<open>--token\<close> in
  one argument give the same string.
\<close>

theorem getGogdlCommand_redacts_token:
  "(\<exists>parts. getGogdlCommand p args
              = join_str '' '' ((if CHR '' '' \<in> set p then [CHR 0x22] @ p @ [CHR 0x22] else p) # parts)
          \<and> subseq parts args \<and> (\<forall>a \<in> set parts. \<not> prefix ''--token'' a))
   \<and> sublist ''info 123 --lang=en-US''
        (getGogdlCommand p [''info'', ''123'', ''--token=SECRET'', ''--lang=en-US''])
   \<and> (\<not> sublist ''SECRET'' p \<longrightarrow>
        \<not> sublist ''SECRET'' (getGogdlCommand p [''info'', ''123'', ''--token=SECRET'', ''--lang=en-US'']))
   \<and> getGogdlCommand p (xs @ [''--token'' @ t1] @ ys) = getGogdlCommand p (xs @ [''--token'' @ t2] @ ys)"
proof (intro conjI impI)
  show "\<exists>parts. getGogdlCommand p args
              = join_str '' '' ((if CHR '' '' \<in> set p then [CHR 0x22] @ p @ [CHR 0x22] else p) # parts)
          \<and> subseq parts args \<and> (\<forall>a \<in> set parts. \<not> prefix ''--token'' a)"
    by (rule getGogdlCommand_parts)
next
  have "sublist ''info 123 --lang=en-US''
          (((if CHR '' '' \<in> set p then [CHR 0x22] @ p @ [CHR 0x22] else p) @ '' '')
             @ ''info 123 --lang=en-US'')"
    by (rule sublist_append_leftI)
  then show "sublist ''info 123 --lang=en-US''
        (getGogdlCommand p [''info'', ''123'', ''--token=SECRET'', ''--lang=en-US''])"
    by (simp add: getGogdlCommand_example)
next
  assume "\<not> sublist ''SECRET'' p"
  then show "\<not> sublist ''SECRET'' (getGogdlCommand p [''info'', ''123'', ''--token=SECRET'', ''--lang=en-US''])"
    unfolding getGogdlCommand_example by (intro no_secret_cmd no_secret_quoted)
next
  show "getGogdlCommand p (xs @ [''--token'' @ t1] @ ys) = getGogdlCommand p (xs @ [''--token'' @ t2] @ ys)"
    by (rule getGogdlCommand_token_value)
qed

theorem getGogdlCommand_redacts_token_witness:
  "\<not> sublist ''SECRET'' ''/opt/gogdl''
   \<and> \<not> sublist ''SECRET'' (getGogdlCommand ''/opt/gogdl'' [''info'', ''123'', ''--token=SECRET'', ''--lang=en-US''])
   \<and> sublist ''info 123 --lang=en-US''
        (getGogdlCommand ''/opt/gogdl'' [''info'', ''123'', ''--token=SECRET'', ''--lang=en-US''])
   \<and> getGogdlCommand ''/opt/gogdl'' ([''info'', ''123''] @ [''--token'' @ ''=SECRET''] @ [''--lang=en-US''])
       = getGogdlCommand ''/opt/gogdl'' ([''info'', ''123''] @ [''--token'' @ ''=OTHER''] @ [''--lang=en-US''])"
proof -
  have h: "\<not> sublist ''SECRET'' ''/opt/gogdl''" by code_simp
  from getGogdlCommand_redacts_token[of "''/opt/gogdl''" "[]" "[''info'', ''123'']" "''=SECRET''"
        "[''--lang=en-US'']" "''=OTHER''"] h
  show ?thesis by blast
qed

subsection \<open>The update checker\<close>

text \<open>
  Claim C6. In the generic branch, once the build listing is there and the metadata
  request (sent with \<open>If-None-Match\<close> set to the recorded etag when there is one) is
  answered with some status: the result is \<open>true\<close> exactly for status 200, \<open>false\<close>
  exactly for status 304, and any other status is an error.
\<close>

theorem checkForGameUpdate_status:
  assumes "builds_api env app plat = Inr buildData" and "items buildData = Some its"
      and "meta_request env (metaUrl_of its) (if_none_match etg) = Inr status"
  shows "(checkForGameUpdate env app etg plat = Inr True \<longleftrightarrow> status = 200)
       \<and> (checkForGameUpdate env app etg plat = Inr False \<longleftrightarrow> status = 304)
       \<and> (status \<noteq> 200 \<and> status \<noteq> 304 \<longrightarrow> checkForGameUpdate env app etg plat = Inl (BadStatus status))
       \<and> (\<forall>e. etg = Some e \<and> e \<noteq> [] \<longrightarrow> if_none_match etg = Some e)"
  using assms by (auto simp: checkForGameUpdate_def validateStatus_def if_none_match_def)

theorem checkForGameUpdate_status_witness:
  "checkForGameUpdate ex_env ''12'' (Some ''e1'') ''windows'' = Inr False
   \<and> if_none_match (Some ''e1'') = Some ''e1''"
proof -
  have b: "builds_api ex_env ''12'' ''windows'' = Inr \<lparr>items = Some [\<lparr>link = Some ''https://cdn/meta''\<rparr>]\<rparr>"
    by (simp add: ex_env_def)
  have i: "items \<lparr>items = Some [\<lparr>link = Some ''https://cdn/meta''\<rparr>]\<rparr> = Some [\<lparr>link = Some ''https://cdn/meta''\<rparr>]"
    by simp
  have m: "meta_request ex_env (metaUrl_of [\<lparr>link = Some ''https://cdn/meta''\<rparr>]) (if_none_match (Some ''e1'')) = Inr 304"
    by (simp add: ex_env_def if_none_match_def)
  from checkForGameUpdate_status[OF b i m] show ?thesis by simp
qed

lemma updateable_loop_result:
  "updateable_loop env gs acc = Inr upd \<Longrightarrow>
     upd = acc @ map appName (filter (\<lambda>g. updateable_step env g = Inr True) gs)"
proof (induction gs arbitrary: acc)
  case Nil
  then show ?case by simp
next
  case (Cons g gs)
  show ?case
  proof (cases "updateable_step env g")
    case (Inl e)
    with Cons.prems show ?thesis by simp
  next
    case (Inr push)
    with Cons.prems Cons.IH[of "if push then acc @ [appName g] else acc"] show ?thesis
      by (cases push) auto
  qed
qed

lemma updateable_loop_returns:
  "\<forall>h \<in> set gs. \<not> isl (updateable_step env h) \<Longrightarrow> \<exists>upd. updateable_loop env gs acc = Inr upd"
proof (induction gs arbitrary: acc)
  case Nil
  then show ?case by simp
next
  case (Cons g gs)
  then obtain push where "updateable_step env g = Inr push"
    by (cases "updateable_step env g") auto
  with Cons show ?case by simp
qed

lemma listUpdateableGames_result:
  assumes "\<forall>h \<in> set (installed_values s). \<not> isl (updateable_step env h)"
  shows "\<exists>s'. listUpdateableGames env s
           = Inr (map appName (filter (\<lambda>g. updateable_step env g = Inr True) (installed_values s)), s')"
proof -
  from updateable_loop_returns[OF assms, of "[]"] obtain upd
    where u: "updateable_loop env (installed_values s) [] = Inr upd" by blast
  from updateable_loop_result[OF u] u show ?thesis
    by (simp add: listUpdateableGames_def)
qed

lemma linux_installer_check_find:
  "linux_installer_check installers v =
     (case find (\<lambda>i. os i = ''linux'') installers of
        Some i \<Rightarrow> Some (Some (installer_version i) = v) | None \<Rightarrow> None)"
  by (induction installers) auto


text \<open>
  Claim C7. Let every installed title's check complete, and let the downloads listing of
  an installed Linux title have an installer whose \<open>os\<close> is \<open>linux\<close> (the first such
  installer is the one compared). Then \<open>listUpdateableGames\<close> returns, and the title is
  left out of the returned list when that installer's version equals the recorded one,
  and is in it when the two differ.
\<close>

theorem linux_title_updateable_iff_version_differs:
  assumes "\<forall>h \<in> set (installed_values s). \<not> isl (updateable_step env h)"
      and "g \<in> set (installed_values s)" and "platform g = ''linux''"
      and "distinct (map appName (installed_values s))"
      and "getProductApi env (appName g) (Some [''downloads'']) = Some response"
      and "downloads_installers response = Some installers"
      and "find (\<lambda>i. os i = ''linux'') installers = Some i"
  shows "\<exists>upd s'. listUpdateableGames env s = Inr (upd, s')
       \<and> (Some (installer_version i) = version g \<longrightarrow> appName g \<notin> set upd)
       \<and> (Some (installer_version i) \<noteq> version g \<longrightarrow> appName g \<in> set upd)"
proof -
  define upd where "upd = map appName (filter (\<lambda>g. updateable_step env g = Inr True) (installed_values s))"
  from listUpdateableGames_result[OF assms(1)] obtain s'
    where res: "listUpdateableGames env s = Inr (upd, s')" unfolding upd_def by blast
  have step: "updateable_step env g = Inr (Some (installer_version i) \<noteq> version g)"
    using assms(3,5,6,7)
    by (simp add: updateable_step_def checkForLinuxInstallerUpdate_def linux_installer_check_find)
  have uniq: "h = g" if "h \<in> set (installed_values s)" "appName h = appName g" for h
    using that assms(2,4) by (meson distinct_map inj_onD)
  have a: "appName g \<notin> set upd" if eq: "Some (installer_version i) = version g"
  proof
    assume "appName g \<in> set upd"
    then obtain h where h: "h \<in> set (installed_values s)" "updateable_step env h = Inr True"
        "appName h = appName g"
      unfolding upd_def by auto
    with uniq have "h = g" by blast
    with h(2) step eq show False by simp
  qed
  have b: "appName g \<in> set upd" if "Some (installer_version i) \<noteq> version g"
    using that step assms(2) unfolding upd_def by auto
  from res a b show ?thesis by blast
qed

theorem linux_title_updateable_iff_version_differs_witness:
  "\<exists>upd s'. listUpdateableGames ex_env ex_loaded = Inr (upd, s') \<and> appName ex_installed \<in> set upd"
proof -
  have 1: "\<forall>h \<in> set (installed_values ex_loaded). \<not> isl (updateable_step ex_env h)" by code_simp
  have 2: "ex_installed \<in> set (installed_values ex_loaded)"
    by (simp add: installed_values_def ex_loaded_def)
  have 3: "platform ex_installed = ''linux''" by (simp add: ex_installed_def)
  have 4: "distinct (map appName (installed_values ex_loaded))"
    by (simp add: installed_values_def ex_loaded_def)
  have 5: "getProductApi ex_env (appName ex_installed) (Some [''downloads'']) = Some ex_listing"
    by (simp add: getProductApi_def ex_env_def ex_installed_def)
  have 6: "downloads_installers ex_listing
             = Some [\<lparr>os = ''windows'', installer_version = ''1.1'', language = ''en''\<rparr>,
                     \<lparr>os = ''linux'', installer_version = ''1.1'', language = ''en''\<rparr>]"
    by (simp add: ex_listing_def)
  have 7: "find (\<lambda>i. os i = ''linux'')
             [\<lparr>os = ''windows'', installer_version = ''1.1'', language = ''en''\<rparr>,
              \<lparr>os = ''linux'', installer_version = ''1.1'', language = ''en''\<rparr>]
           = Some \<lparr>os = ''linux'', installer_version = ''1.1'', language = ''en''\<rparr>"
    by simp
  have 8: "Some (installer_version \<lparr>os = ''linux'', installer_version = ''1.1'', language = ''en''\<rparr>)
             \<noteq> version ex_installed"
    by (simp add: ex_installed_def)
  from linux_title_updateable_iff_version_differs[OF 1 2 3 4 5 6 7] 8 show ?thesis by blast
qed



subsection \<open>What \<open>refreshInstalled\<close> touches\<close>

lemma refresh_fold_frame:
  "library (fold (\<lambda>value s'. s'\<lparr>heap := heap s' @ [value],
        installedGames := AList.update (appName value) (length (heap s')) (installedGames s')\<rparr>) xs s) = library s
 \<and> libraryStore (fold (\<lambda>value s'. s'\<lparr>heap := heap s' @ [value],
        installedGames := AList.update (appName value) (length (heap s')) (installedGames s')\<rparr>) xs s) = libraryStore s
 \<and> installedGamesStore (fold (\<lambda>value s'. s'\<lparr>heap := heap s' @ [value],
        installedGames := AList.update (appName value) (length (heap s')) (installedGames s')\<rparr>) xs s) = installedGamesStore s
 \<and> apiInfoCache (fold (\<lambda>value s'. s'\<lparr>heap := heap s' @ [value],
        installedGames := AList.update (appName value) (length (heap s')) (installedGames s')\<rparr>) xs s) = apiInfoCache s
 \<and> log (fold (\<lambda>value s'. s'\<lparr>heap := heap s' @ [value],
        installedGames := AList.update (appName value) (length (heap s')) (installedGames s')\<rparr>) xs s) = log s
 \<and> heap (fold (\<lambda>value s'. s'\<lparr>heap := heap s' @ [value],
        installedGames := AList.update (appName value) (length (heap s')) (installedGames s')\<rparr>) xs s) = heap s @ xs"
  by (induction xs arbitrary: s) simp_all

lemma refreshInstalled_frame [simp]:
  "library (refreshInstalled s) = library s"
  "libraryStore (refreshInstalled s) = libraryStore s"
  "installedGamesStore (refreshInstalled s) = installedGamesStore s"
  "apiInfoCache (refreshInstalled s) = apiInfoCache s"
  "log (refreshInstalled s) = log s"
  by (simp_all add: refreshInstalled_def refresh_fold_frame)

lemma refreshInstalled_heap:
  "heap (refreshInstalled s) = heap s @ (case installedGamesStore s of Some a \<Rightarrow> a | None \<Rightarrow> [])"
  by (simp add: refreshInstalled_def refresh_fold_frame)

text \<open>
  Claim C4. With a session and credentials, when the first catalog request fails \<open>sync\<close>
  returns normally (no exception), the log gains the \<open>Getting GOG library\<close> line and the
  two error lines (the first one with the error's message), and the Library Store, with
  its keys \<open>games\<close>, \<open>totalGames\<close> and \<open>totalMovies\<close>, is as before; so are the other two
  stores and the library map.
\<close>

theorem sync_first_page_failure_aborts:
  assumes "isLoggedIn env" and "getCredentials env = Some tok"
      and "getFilteredProducts env tok 1 = Inl e"
  shows "\<exists>s'. sync env s = Inr s'
       \<and> libraryStore s' = libraryStore s
       \<and> log s' = log s @ [(Info, [''Getting GOG library''], Gog),
                            (Error, [''There was an error getting games library data'', e], Gog),
                            (Error, [''There was an error Loading games library''], Gog)]
       \<and> apiInfoCache s' = apiInfoCache s
       \<and> installedGamesStore s' = installedGamesStore s
       \<and> library s' = library s"
  using assms by (simp add: sync_def logInfo_def logError_def)

theorem sync_first_page_failure_aborts_witness:
  "\<exists>s'. sync ex_env_offline ex_state = Inr s'
       \<and> libraryStore s' = libraryStore ex_state
       \<and> log s' = [(Info, [''Getting GOG library''], Gog),
                    (Error, [''There was an error getting games library data'', ''Network Error''], Gog),
                    (Error, [''There was an error Loading games library''], Gog)]"
proof -
  have 1: "isLoggedIn ex_env_offline" by (simp add: ex_env_offline_def ex_env_def)
  have 2: "getCredentials ex_env_offline = Some ''tok''" by (simp add: ex_env_offline_def ex_env_def)
  have 3: "getFilteredProducts ex_env_offline ''tok'' 1 = Inl ''Network Error''"
    by (simp add: ex_env_offline_def)
  have 4: "log ex_state = []" by (simp add: ex_state_def)
  from sync_first_page_failure_aborts[OF 1 2 3, of ex_state] 4 show ?thesis by auto
qed

subsection \<open>Changing the install path\<close>

lemma findIndex_Some:
  "findIndex P xs = Some i \<Longrightarrow> i < length xs \<and> P (xs ! i) \<and> (\<forall>j<i. \<not> P (xs ! j))"
proof (induction xs arbitrary: i)
  case Nil
  then show ?case by simp
next
  case (Cons x xs)
  show ?case
  proof (cases "P x")
    case True
    with Cons.prems show ?thesis by simp
  next
    case False
    with Cons.prems obtain k where k: "findIndex P xs = Some k" "i = Suc k" by auto
    from Cons.IH[OF k(1)] False k(2) show ?thesis
      by (auto simp: nth_Cons split: nat.splits)
  qed
qed

lemma findIndex_None: "findIndex P xs = None \<longleftrightarrow> (\<forall>x \<in> set xs. \<not> P x)"
  by (induction xs) auto

lemma changeGameInstallPath_error:
  "(\<forall>v \<in> set (case installedGamesStore s of Some a \<Rightarrow> a | None \<Rightarrow> []). appName v \<noteq> app)
     \<or> map_of (library s) app = None
   \<Longrightarrow> changeGameInstallPath app p s = Inl TypeError"
  by (auto simp: changeGameInstallPath_def Let_def findIndex_None split: option.splits)

lemma map_fst_update_existing:
  "map_of al k = Some v \<Longrightarrow> map fst (AList.update k v' al) = map fst al"
  by (simp add: AList.update_keys) (metis domI dom_map_of_conv_image_fst set_map)

text \<open>
  Claim C9. When the title is in the Installed Store (at index \<open>i\<close>, the first record with
  that \<open>appName\<close>) and in the library map, \<open>changeGameInstallPath\<close> returns and:
  the Library Store, the metadata cache, the log and the installed map are as before; the
  Installed Store has the same records except that record \<open>i\<close> has the new
  \<open>install_path\<close>, its other fields being as before; the library map has the same keys and
  the same records under every other key; the cached record of the title is changed in
  nothing but the \<open>install_path\<close> of its install object, which is either the heap object it
  shares with the installed map or its own.
\<close>

theorem changeGameInstallPath_frame:
  assumes "installedGamesStore s = Some arr"
      and "findIndex (\<lambda>v. appName v = app) arr = Some i"
      and "map_of (library s) app = Some c"
  shows "\<exists>s' arr'. changeGameInstallPath app p s = Inr s'
       \<and> libraryStore s' = libraryStore s \<and> apiInfoCache s' = apiInfoCache s
       \<and> log s' = log s \<and> installedGames s' = installedGames s
       \<and> installedGamesStore s' = Some arr' \<and> length arr' = length arr
       \<and> i < length arr \<and> appName (arr ! i) = app
       \<and> arr' ! i = (arr ! i)\<lparr>install_path := p\<rparr>
       \<and> (\<forall>j < length arr. j \<noteq> i \<longrightarrow> arr' ! j = arr ! j)
       \<and> map fst (library s') = map fst (library s)
       \<and> (\<forall>k. k \<noteq> app \<longrightarrow> map_of (library s') k = map_of (library s) k)
       \<and> (case install c of
             Shared r \<Rightarrow> library s' = library s
                        \<and> heap s' = (heap s)[r := (heap s ! r)\<lparr>install_path := p\<rparr>]
           | Own b \<Rightarrow> heap s' = heap s
                     \<and> map_of (library s') app = Some (c\<lparr>install := Own (b\<lparr>install_path := p\<rparr>)\<rparr>))"
proof -
  from findIndex_Some[OF assms(2)] have i: "i < length arr" "appName (arr ! i) = app" by auto
  show ?thesis
  proof (cases "install c")
    case (Shared r)
    with assms i show ?thesis
      by (simp add: changeGameInstallPath_def Let_def)
  next
    case (Own b)
    with assms i show ?thesis
      by (simp add: changeGameInstallPath_def Let_def map_fst_update_existing AList.update_conv')
  qed
qed

theorem changeGameInstallPath_frame_witness:
  "\<exists>s'. changeGameInstallPath ''7'' ''/mnt/alpha'' ex_synced = Inr s'
       \<and> libraryStore s' = libraryStore ex_synced
       \<and> installedGamesStore s' = Some [ex_installed\<lparr>install_path := ''/mnt/alpha''\<rparr>]
       \<and> library s' = library ex_synced
       \<and> heap s' = [ex_installed\<lparr>install_path := ''/mnt/alpha''\<rparr>]"
proof -
  have 1: "installedGamesStore ex_synced = Some [ex_installed]"
    by (simp add: ex_synced_def ex_loaded_def ex_state_def)
  have 2: "findIndex (\<lambda>v. appName v = ''7'') [ex_installed] = Some 0"
    by (simp add: ex_installed_def)
  have 3: "map_of (library ex_synced) ''7'' = Some ex_cached"
    by (simp add: ex_synced_def)
  have 4: "install ex_cached = Shared 0" by (simp add: ex_cached_def)
  have 5: "heap ex_synced = [ex_installed]" by (simp add: ex_synced_def ex_loaded_def)
  from changeGameInstallPath_frame[OF 1 2 3, of "''/mnt/alpha''"] 4 5 show ?thesis
    by (auto simp: length_Suc_conv)
qed

subsection \<open>Keys\<close>

lemma digit_val_digit_char: "d < 10 \<Longrightarrow> digit_val (digit_char d) = d"
proof -
  assume "d < 10"
  then have "d \<in> {0, 1, 2, 3, 4, 5, 6, 7, 8, 9}" by auto
  then show ?thesis
    by (auto simp: digit_char_def digit_val_def)
qed

lemma nat_of_digits_snoc: "nat_of_digits (cs @ [c]) = 10 * nat_of_digits cs + digit_val c"
  by (simp add: nat_of_digits_def)

lemma nat_of_digits_String_nat: "nat_of_digits (String_nat n) = n"
proof (induction n rule: String_nat.induct)
  case (1 n)
  show ?case
  proof (cases "n < 10")
    case True
    then show ?thesis
      by (subst String_nat.simps) (simp add: nat_of_digits_def digit_val_digit_char)
  next
    case False
    with "1.IH" show ?thesis
      by (subst String_nat.simps) (simp add: nat_of_digits_snoc digit_val_digit_char)
  qed
qed

lemma String_nat_inj: "String_nat m = String_nat n \<Longrightarrow> m = n"
  by (metis nat_of_digits_String_nat)

lemma game_key_eq_iff: "game_key g = game_key h \<longleftrightarrow> info_id g = info_id h"
  by (auto simp: game_key_def dest: String_nat_inj)

lemma distinct_game_keys: "distinct (map game_key gs) \<longleftrightarrow> distinct (map info_id gs)"
proof -
  have "map game_key gs = map String_nat (map info_id gs)" by (simp add: game_key_def)
  moreover have "inj String_nat" by (rule injI) (rule String_nat_inj)
  ultimately show ?thesis by (simp only: distinct_map) (auto intro: inj_on_subset)
qed

subsection \<open>The catalog pages\<close>

lemma sync_pages_all:
  assumes "\<forall>p. page \<le> p \<and> p \<le> n \<longrightarrow> \<not> isl (getFilteredProducts env tok p)"
  shows "\<exists>lg. sync_pages env tok n page (acc, s)
            = Inr (acc @ concat (map (page_products env tok) [page..<Suc n]), s\<lparr>log := log s @ lg\<rparr>)"
  using assms
proof (induction "Suc n - page" arbitrary: page acc s)
  case 0
  then have "\<not> page \<le> n" by simp
  then show ?case
    by (subst sync_pages.simps) (auto intro: exI[of _ "[]"])
next
  case (Suc k)
  then have le: "page \<le> n" by simp
  then have upt: "[page..<Suc n] = page # [Suc page..<Suc n]"
    by (simp add: upt_conv_Cons del: upt_Suc)
  from Suc.prems le obtain pageData where pd: "getFilteredProducts env tok page = Inr pageData"
    by (cases "getFilteredProducts env tok page") auto
  define s1 where "s1 = logInfo [''Getting data for page'', String_nat page] Gog s"
  define acc1 where "acc1 = acc @ page_products env tok page"
  have step: "sync_pages env tok n page (acc, s) = sync_pages env tok n (Suc page) (acc1, s1)"
    using le pd
    by (subst sync_pages.simps) (auto simp: Let_def s1_def acc1_def page_products_def split: option.splits)
  have k: "k = Suc n - Suc page" using Suc.hyps(2) by simp
  have rest: "\<forall>p. Suc page \<le> p \<and> p \<le> n \<longrightarrow> \<not> isl (getFilteredProducts env tok p)"
    using Suc.prems by simp
  from Suc.hyps(1)[OF k rest, of acc1 s1] obtain lg where
    "sync_pages env tok n (Suc page) (acc1, s1)
       = Inr (acc1 @ concat (map (page_products env tok) [Suc page..<Suc n]), s1\<lparr>log := log s1 @ lg\<rparr>)"
    by blast
  with step show ?case
    unfolding upt by (auto simp: acc1_def s1_def logInfo_def)
qed

lemma sync_catalog_all:
  assumes "getFilteredProducts env tok 1 = Inr r1" and "products r1 = Some ps1"
      and "\<forall>p \<in> set [2..<Suc (totalPages r1)]. \<not> isl (getFilteredProducts env tok p)"
  shows "\<exists>lg. sync_catalog env tok r1 s
            = Inr (merged_catalog env tok (totalPages r1), s\<lparr>log := log s @ lg\<rparr>)"
proof -
  have pp1: "page_products env tok 1 = ps1"
    using assms(1,2) by (simp add: page_products_def)
  have ok: "\<forall>p. 2 \<le> p \<and> p \<le> totalPages r1 \<longrightarrow> \<not> isl (getFilteredProducts env tok p)"
    using assms(3) by auto
  from sync_pages_all[OF ok, of ps1
      "logInfo [''Number of library pages:'', String_nat (totalPages r1)] Gog s"]
  show ?thesis
    using assms(2) pp1
    by (auto simp: sync_catalog_def catalog_pages_def merged_catalog_def logInfo_def)
qed

subsection \<open>The unified record of a catalog entry\<close>

lemma gogToUnifiedInfo_fresh:
  "app_name (fst (gogToUnifiedInfo env g d)) = game_key g"
  "\<not> is_installed (fst (gogToUnifiedInfo env g d))"
  "install (fst (gogToUnifiedInfo env g d)) = blank_install"
  by (simp_all add: gogToUnifiedInfo_def game_key_def blank_install_def Let_def split_def)

lemma unified_for_found:
  "find (\<lambda>value. app_name value = game_key g) arr = Some u \<Longrightarrow>
     unified_for env (Some arr) g s = (u, s)"
  by (simp add: unified_for_def game_key_def)

lemma unified_for_frame [simp]:
  "library (snd (unified_for env ga g s)) = library s"
  "installedGames (snd (unified_for env ga g s)) = installedGames s"
  "heap (snd (unified_for env ga g s)) = heap s"
  "libraryStore (snd (unified_for env ga g s)) = libraryStore s"
  "installedGamesStore (snd (unified_for env ga g s)) = installedGamesStore s"
  by (simp_all add: unified_for_def Let_def split_def split: option.splits)

lemma unified_for_app_name: "app_name (fst (unified_for env ga g s)) = game_key g"
proof (cases "case ga of Some arr \<Rightarrow> find (\<lambda>value. app_name value = game_key g) arr | None \<Rightarrow> None")
  case None
  then show ?thesis
    by (simp add: unified_for_def Let_def split_def game_key_def[symmetric] gogToUnifiedInfo_fresh
        split: option.splits)
next
  case (Some u)
  then obtain arr where arr: "ga = Some arr" "find (\<lambda>value. app_name value = game_key g) arr = Some u"
    by (cases ga) auto
  from arr(2) have "app_name u = game_key g" by (auto simp: find_Some_iff)
  with arr show ?thesis by (simp add: unified_for_found)
qed

lemma unified_for_origin:
  "fst (unified_for env ga g s) \<in> set (case ga of Some arr \<Rightarrow> arr | None \<Rightarrow> [])
   \<or> (\<not> is_installed (fst (unified_for env ga g s))
      \<and> install (fst (unified_for env ga g s)) = blank_install)"
proof (cases "case ga of Some arr \<Rightarrow> find (\<lambda>value. app_name value = game_key g) arr | None \<Rightarrow> None")
  case None
  then show ?thesis
    by (simp add: unified_for_def Let_def split_def game_key_def[symmetric] gogToUnifiedInfo_fresh
        split: option.splits)
next
  case (Some u)
  then obtain arr where arr: "ga = Some arr" "find (\<lambda>value. app_name value = game_key g) arr = Some u"
    by (cases ga) auto
  from arr(2) have "u \<in> set arr" by (auto simp: find_Some_iff)
  with arr show ?thesis by (simp add: unified_for_found)
qed

lemma unified_for_cache_only:
  assumes "apiInfoCache s = apiInfoCache t"
  shows "fst (unified_for env ga g s) = fst (unified_for env ga g t)
       \<and> apiInfoCache (snd (unified_for env ga g s)) = apiInfoCache (snd (unified_for env ga g t))"
  using assms by (simp add: unified_for_def Let_def split_def split: option.splits)

subsection \<open>The loop over the catalog\<close>

lemma sync_game_eq:
  "sync_game env ga g (acc, s) =
     (acc @ [fst (unified_for env ga g s)],
      (snd (unified_for env ga g s))
        \<lparr>library := AList.update (game_key g) (attach_installed (map_of (installedGames s) (game_key g)) (fst (unified_for env ga g s))) (library s)\<rparr>)"
proof -
  obtain a b where ab: "unified_for env ga g s = (a, b)"
    by (cases "unified_for env ga g s")
  from unified_for_frame[of env ga g s] ab
  have "installedGames b = installedGames s" "library b = library s" by simp_all
  with ab show ?thesis
    by (simp add: sync_game_def Let_def game_key_def)
qed

lemma sync_game_frame [simp]:
  "installedGames (snd (sync_game env ga g (acc, s))) = installedGames s"
  "heap (snd (sync_game env ga g (acc, s))) = heap s"
  "libraryStore (snd (sync_game env ga g (acc, s))) = libraryStore s"
  "installedGamesStore (snd (sync_game env ga g (acc, s))) = installedGamesStore s"
  by (simp_all add: sync_game_eq)

lemma sync_games_acc:
  "sync_games env ga gs (acc, s)
     = (acc @ fst (sync_games env ga gs ([], s)), snd (sync_games env ga gs ([], s)))"
proof (induction gs arbitrary: acc s)
  case Nil
  then show ?case by simp
next
  case (Cons g gs)
  show ?case
    by (simp add: sync_game_eq)
       (simp add: Cons.IH[of "acc @ [fst (unified_for env ga g s)]"]
                  Cons.IH[of "[fst (unified_for env ga g s)]"])
qed

lemma sync_games_Cons:
  "sync_games env ga (g # gs) ([], s)
     = (fst (unified_for env ga g s) # fst (sync_games env ga gs ([], snd (sync_game env ga g ([], s)))),
        snd (sync_games env ga gs ([], snd (sync_game env ga g ([], s)))))"
  by (simp add: sync_game_eq)
     (simp add: sync_games_acc[of env ga gs "[fst (unified_for env ga g s)]"])

lemma sync_games_frame:
  "installedGames (snd (sync_games env ga gs ([], s))) = installedGames s
 \<and> heap (snd (sync_games env ga gs ([], s))) = heap s
 \<and> libraryStore (snd (sync_games env ga gs ([], s))) = libraryStore s
 \<and> installedGamesStore (snd (sync_games env ga gs ([], s))) = installedGamesStore s"
proof (induction gs arbitrary: s)
  case Nil
  then show ?case by simp
next
  case (Cons g gs)
  from Cons.IH[of "snd (sync_game env ga g ([], s))"] show ?case
    by (simp only: sync_games_Cons snd_conv sync_game_frame)
qed

lemma sync_games_app_names:
  "map app_name (fst (sync_games env ga gs ([], s))) = map game_key gs"
proof (induction gs arbitrary: s)
  case Nil
  then show ?case by simp
next
  case (Cons g gs)
  show ?case
    by (simp only: sync_games_Cons fst_conv list.map Cons.IH unified_for_app_name)
qed

lemma sync_games_origin:
  "\<forall>u \<in> set (fst (sync_games env ga gs ([], s))).
      u \<in> set (case ga of Some arr \<Rightarrow> arr | None \<Rightarrow> [])
    \<or> (\<not> is_installed u \<and> install u = blank_install)"
proof (induction gs arbitrary: s)
  case Nil
  then show ?case by simp
next
  case (Cons g gs)
  from Cons.IH[of "snd (sync_game env ga g ([], s))"] unified_for_origin[of env ga g s]
  show ?case
    by (simp only: sync_games_Cons fst_conv) auto
qed

lemma sync_game_cache_only:
  "apiInfoCache s = apiInfoCache t \<Longrightarrow>
     apiInfoCache (snd (sync_game env ga g ([], s))) = apiInfoCache (snd (sync_game env ga g ([], t)))"
  using unified_for_cache_only[of s t env ga g] by (simp add: sync_game_eq)

lemma sync_games_cache_only:
  "apiInfoCache s = apiInfoCache t \<Longrightarrow>
     fst (sync_games env ga gs ([], s)) = fst (sync_games env ga gs ([], t))"
proof (induction gs arbitrary: s t)
  case Nil
  then show ?case by simp
next
  case (Cons g gs)
  from unified_for_cache_only[OF Cons.prems, of env ga g]
  have u: "fst (unified_for env ga g s) = fst (unified_for env ga g t)" by simp
  from Cons.IH[OF sync_game_cache_only[OF Cons.prems, of env ga g]] u
  show ?case
    by (simp only: sync_games_Cons fst_conv)
qed

lemma sync_games_reused:
  "i < length gs \<Longrightarrow> find (\<lambda>value. app_name value = game_key (gs ! i)) arr = Some u \<Longrightarrow>
     fst (sync_games env (Some arr) gs ([], s)) ! i = u"
proof (induction gs arbitrary: s i)
  case Nil
  then show ?case by simp
next
  case (Cons g gs)
  show ?case
  proof (cases i)
    case 0
    with Cons.prems have "unified_for env (Some arr) g s = (u, s)"
      by (simp add: unified_for_found)
    with 0 show ?thesis by (simp only: sync_games_Cons fst_conv nth_Cons_0)
  next
    case (Suc j)
    with Cons.prems Cons.IH[of j "snd (sync_game env (Some arr) g ([], s))"] show ?thesis
      by (simp only: sync_games_Cons fst_conv) simp
  qed
qed

text \<open>When every entry is found in the array, the records pushed are the ones found.\<close>

lemma sync_games_all_found:
  "\<forall>g \<in> set gs. find (\<lambda>value. app_name value = game_key g) arr \<noteq> None \<Longrightarrow>
     fst (sync_games env (Some arr) gs ([], s))
       = map (\<lambda>g. the (find (\<lambda>value. app_name value = game_key g) arr)) gs"
proof (induction gs arbitrary: s)
  case Nil
  then show ?case by simp
next
  case (Cons g gs)
  from Cons.prems obtain u where u: "find (\<lambda>value. app_name value = game_key g) arr = Some u"
    by auto
  then have "unified_for env (Some arr) g s = (u, s)" by (rule unified_for_found)
  with u Cons.IH[of "snd (sync_game env (Some arr) g ([], s))"] Cons.prems show ?case
    by (simp only: sync_games_Cons fst_conv) simp
qed

lemma find_own_position:
  assumes "distinct (map f xs)" and "i < length xs"
  shows "find (\<lambda>v. f v = f (xs ! i)) xs = Some (xs ! i)"
proof -
  have "\<forall>j<i. f (xs ! j) \<noteq> f (xs ! i)"
    using assms by (auto simp: distinct_conv_nth)
  with assms(2) show ?thesis
    by (subst find_Some_iff) blast
qed

lemma refound_is_identity:
  assumes "map app_name us = map game_key gs" and "distinct (map game_key gs)"
  shows "map (\<lambda>g. the (find (\<lambda>value. app_name value = game_key g) us)) gs = us"
proof (rule nth_equalityI)
  from assms(1) have len: "length us = length gs" by (metis length_map)
  then show "length (map (\<lambda>g. the (find (\<lambda>value. app_name value = game_key g) us)) gs) = length us"
    by simp
  fix i assume "i < length (map (\<lambda>g. the (find (\<lambda>value. app_name value = game_key g) us)) gs)"
  then have i: "i < length gs" by simp
  with len have iu: "i < length us" by simp
  from assms(1) i iu have key: "game_key (gs ! i) = app_name (us ! i)"
    by (metis nth_map)
  from assms have "distinct (map app_name us)" by simp
  from find_own_position[OF this iu] key i
  show "map (\<lambda>g. the (find (\<lambda>value. app_name value = game_key g) us)) gs ! i = us ! i"
    by simp
qed

subsection \<open>A completed \<open>sync\<close>\<close>

lemma sync_completes:
  assumes "isLoggedIn env" and "getCredentials env = Some tok"
      and "getFilteredProducts env tok 1 = Inr r1" and "products r1 = Some ps1"
      and "\<forall>p \<in> set [2..<Suc (totalPages r1)]. \<not> isl (getFilteredProducts env tok p)"
  shows "\<exists>lg. sync env s =
           Inr (logInfo [''Saved games data''] Gog
                 ((snd (sync_games env (games (libraryStore s)) (merged_catalog env tok (totalPages r1))
                          ([], (refreshInstalled s)\<lparr>log := lg\<rparr>)))
                    \<lparr>libraryStore := (libraryStore s)
                       \<lparr>games := Some (fst (sync_games env (games (libraryStore s))
                                             (merged_catalog env tok (totalPages r1))
                                             ([], (refreshInstalled s)\<lparr>log := lg\<rparr>))),
                        totalGames := Some (totalProducts r1),
                        totalMovies := Some (moviesCount r1)\<rparr>\<rparr>))"
proof -
  define s2 where "s2 = logInfo [''Getting GOG library''] Gog (refreshInstalled s)"
  from sync_catalog_all[OF assms(3,4,5), of s2] obtain lg where
    cat: "sync_catalog env tok r1 s2 = Inr (merged_catalog env tok (totalPages r1), s2\<lparr>log := log s2 @ lg\<rparr>)"
    by blast
  define s3 where "s3 = s2\<lparr>log := log s2 @ lg\<rparr>"
  have s3: "s3 = (refreshInstalled s)\<lparr>log := log s2 @ lg\<rparr>"
    by (simp add: s3_def s2_def logInfo_def)
  have ls: "libraryStore s3 = libraryStore s" by (simp add: s3)
  from sync_games_frame[of env "games (libraryStore s)" "merged_catalog env tok (totalPages r1)" s3]
  have ls4: "libraryStore (snd (sync_games env (games (libraryStore s))
               (merged_catalog env tok (totalPages r1)) ([], s3))) = libraryStore s"
    using ls by simp
  have "sync env s =
           Inr (logInfo [''Saved games data''] Gog
                 ((snd (sync_games env (games (libraryStore s)) (merged_catalog env tok (totalPages r1))
                          ([], s3)))
                    \<lparr>libraryStore := (libraryStore s)
                       \<lparr>games := Some (fst (sync_games env (games (libraryStore s))
                                             (merged_catalog env tok (totalPages r1))
                                             ([], s3))),
                        totalGames := Some (totalProducts r1),
                        totalMovies := Some (moviesCount r1)\<rparr>\<rparr>))"
    using assms(1,2,3) cat ls ls4
    by (simp add: sync_def Let_def s2_def[symmetric] s3_def[symmetric] split_def)
  then show ?thesis unfolding s3 by blast
qed


lemma sync_completes_fields:
  assumes "isLoggedIn env" and "getCredentials env = Some tok"
      and "getFilteredProducts env tok 1 = Inr r1" and "products r1 = Some ps1"
      and "\<forall>p \<in> set [2..<Suc (totalPages r1)]. \<not> isl (getFilteredProducts env tok p)"
  shows "\<exists>lg s'. sync env s = Inr s'
       \<and> libraryStore s' = (libraryStore s)
            \<lparr>games := Some (fst (sync_games env (games (libraryStore s))
                                  (merged_catalog env tok (totalPages r1))
                                  ([], (refreshInstalled s)\<lparr>log := lg\<rparr>))),
             totalGames := Some (totalProducts r1),
             totalMovies := Some (moviesCount r1)\<rparr>
       \<and> library s' = library (snd (sync_games env (games (libraryStore s))
                                  (merged_catalog env tok (totalPages r1))
                                  ([], (refreshInstalled s)\<lparr>log := lg\<rparr>)))
       \<and> heap s' = heap (refreshInstalled s)
       \<and> installedGames s' = installedGames (refreshInstalled s)
       \<and> installedGamesStore s' = installedGamesStore s"
proof -
  from sync_completes[OF assms, of s] obtain lg where
    eq: "sync env s =
           Inr (logInfo [''Saved games data''] Gog
                 ((snd (sync_games env (games (libraryStore s)) (merged_catalog env tok (totalPages r1))
                          ([], (refreshInstalled s)\<lparr>log := lg\<rparr>)))
                    \<lparr>libraryStore := (libraryStore s)
                       \<lparr>games := Some (fst (sync_games env (games (libraryStore s))
                                             (merged_catalog env tok (totalPages r1))
                                             ([], (refreshInstalled s)\<lparr>log := lg\<rparr>))),
                        totalGames := Some (totalProducts r1),
                        totalMovies := Some (moviesCount r1)\<rparr>\<rparr>))"
    by blast
  from sync_games_frame[of env "games (libraryStore s)" "merged_catalog env tok (totalPages r1)"
        "(refreshInstalled s)\<lparr>log := lg\<rparr>"]
  show ?thesis
    unfolding eq by (intro exI[of _ lg]) (simp add: logInfo_def)
qed

subsection \<open>The library map after the loop\<close>

lemma sync_game_library:
  "library (snd (sync_game env ga g ([], s)))
     = AList.update (game_key g)
         (attach_installed (map_of (installedGames s) (game_key g)) (fst (unified_for env ga g s)))
         (library s)"
  by (simp add: sync_game_eq)

lemma sync_games_library_other:
  "k \<notin> game_key ` set gs \<Longrightarrow>
     map_of (library (snd (sync_games env ga gs ([], s)))) k = map_of (library s) k"
proof (induction gs arbitrary: s)
  case Nil
  then show ?case by simp
next
  case (Cons g gs)
  then have "k \<noteq> game_key g" "k \<notin> game_key ` set gs" by auto
  with Cons.IH[of "snd (sync_game env ga g ([], s))"] show ?case
    by (simp only: sync_games_Cons snd_conv sync_game_library) (simp add: AList.update_conv')
qed

lemma sync_games_library_copy:
  "i < length gs \<Longrightarrow> (\<forall>j. i < j \<and> j < length gs \<longrightarrow> game_key (gs ! j) \<noteq> game_key (gs ! i)) \<Longrightarrow>
     map_of (library (snd (sync_games env ga gs ([], s)))) (game_key (gs ! i))
       = Some (attach_installed (map_of (installedGames s) (game_key (gs ! i)))
                 (fst (sync_games env ga gs ([], s)) ! i))"
proof (induction gs arbitrary: s i)
  case Nil
  then show ?case by simp
next
  case (Cons g gs)
  show ?case
  proof (cases i)
    case 0
    have "game_key g \<notin> game_key ` set gs"
    proof
      assume "game_key g \<in> game_key ` set gs"
      then obtain j where "j < length gs" "game_key (gs ! j) = game_key g"
        by (auto simp: in_set_conv_nth)
      with Cons.prems(2)[rule_format, of "Suc j"] 0 show False by simp
    qed
    from sync_games_library_other[OF this, of env ga "snd (sync_game env ga g ([], s))"] 0
    show ?thesis
      by (simp only: sync_games_Cons snd_conv fst_conv sync_game_library)
         (simp add: AList.update_conv')
  next
    case (Suc k)
    with Cons.prems have k: "k < length gs"
      and later: "\<forall>j. k < j \<and> j < length gs \<longrightarrow> game_key (gs ! j) \<noteq> game_key (gs ! k)"
      by auto
    from Cons.IH[OF k later, of "snd (sync_game env ga g ([], s))"] Suc show ?thesis
      by (simp only: sync_games_Cons snd_conv fst_conv nth_Cons_Suc sync_game_frame)
  qed
qed

lemma attach_installed_Some:
  "is_installed (attach_installed (Some r) u) \<and> install (attach_installed (Some r) u) = Shared r"
  by (simp add: attach_installed_def)

lemma sync_games_library_installed:
  "map_of (installedGames s) k = Some r \<Longrightarrow>
   (k \<in> game_key ` set gs \<or> (\<exists>c. map_of (library s) k = Some c \<and> is_installed c \<and> install c = Shared r)) \<Longrightarrow>
     \<exists>c. map_of (library (snd (sync_games env ga gs ([], s)))) k = Some c
        \<and> is_installed c \<and> install c = Shared r"
proof (induction gs arbitrary: s)
  case Nil
  then show ?case by simp
next
  case (Cons g gs)
  define s1 where "s1 = snd (sync_game env ga g ([], s))"
  have inst: "map_of (installedGames s1) k = Some r"
    using Cons.prems(1) by (simp add: s1_def)
  have lib: "library s1 = AList.update (game_key g)
         (attach_installed (map_of (installedGames s) (game_key g)) (fst (unified_for env ga g s)))
         (library s)"
    unfolding s1_def by (rule sync_game_library)
  have "k \<in> game_key ` set gs \<or> (\<exists>c. map_of (library s1) k = Some c \<and> is_installed c \<and> install c = Shared r)"
  proof (cases "game_key g = k")
    case True
    with Cons.prems(1) lib attach_installed_Some[of r "fst (unified_for env ga g s)"]
    show ?thesis by (simp add: AList.update_conv')
  next
    case False
    with Cons.prems(2) lib show ?thesis by (auto simp: AList.update_conv')
  qed
  from Cons.IH[OF inst this] show ?case
    by (simp only: sync_games_Cons snd_conv s1_def)
qed

subsection \<open>The installed map after \<open>refreshInstalled\<close>\<close>

lemma refresh_fold_map:
  fixes s0 :: state
  assumes "installedGames s0 = []" and "heap s0 = h0"
  shows "installedGames (fold (\<lambda>value s'. s'\<lparr>heap := heap s' @ [value],
            installedGames := AList.update (appName value) (length (heap s')) (installedGames s')\<rparr>) xs s0) = m
     \<Longrightarrow> (case map_of m k of
            None \<Rightarrow> filter (\<lambda>v. appName v = k) xs = []
          | Some r \<Rightarrow> r < length (h0 @ xs) \<and> filter (\<lambda>v. appName v = k) xs \<noteq> []
                    \<and> (h0 @ xs) ! r = last (filter (\<lambda>v. appName v = k) xs))"
proof (induction xs arbitrary: m rule: rev_induct)
  case Nil
  with assms show ?case by simp
next
  case (snoc x xs)
  define f :: "InstalledInfo \<Rightarrow> state \<Rightarrow> state" where "f = (\<lambda>value s'. s'\<lparr>heap := heap s' @ [value],
            installedGames := AList.update (appName value) (length (heap s')) (installedGames s')\<rparr>)"
  define s1 where "s1 = fold f xs s0"
  have h1: "heap s1 = h0 @ xs"
    using refresh_fold_frame[of xs s0] assms(2) by (simp add: s1_def f_def)
  from snoc.prems have m: "m = AList.update (appName x) (length (h0 @ xs)) (installedGames s1)"
    by (simp add: f_def[symmetric] s1_def[symmetric]) (simp add: f_def h1)
  note IH = snoc.IH[of "installedGames s1", unfolded f_def[symmetric] s1_def[symmetric], OF refl]
  show ?case
  proof (cases "appName x = k")
    case True
    then show ?thesis by (simp add: m AList.update_conv' nth_append)
  next
    case False
    with IH show ?thesis
      by (auto simp: m AList.update_conv' nth_append split: option.splits)
  qed
qed

lemma refreshInstalled_lookup:
  assumes "installedGamesStore s = Some arr" and "v \<in> set arr" and "appName v = k"
  shows "\<exists>r. map_of (installedGames (refreshInstalled s)) k = Some r
           \<and> r < length (heap (refreshInstalled s))
           \<and> heap (refreshInstalled s) ! r = last (filter (\<lambda>w. appName w = k) arr)"
proof -
  from assms(2,3) have ne: "filter (\<lambda>w. appName w = k) arr \<noteq> []"
    by (auto simp: filter_empty_conv)
  have hp: "heap (refreshInstalled s) = heap s @ arr"
    using assms(1) by (simp add: refreshInstalled_heap)
  from refresh_fold_map[of "s\<lparr>installedGames := []\<rparr>" "heap s" arr _ k, OF _ _ refl] ne
  show ?thesis
    using assms(1) unfolding hp
    by (auto simp: refreshInstalled_def split: option.splits)
qed

subsection \<open>The installed map holds one record per title\<close>

lemma set_update_subset: "set (AList.update k v al) \<subseteq> insert (k, v) (set al)"
  by (induction al) auto

lemma refresh_fold_inv:
  fixes s :: state
  assumes "distinct (map fst (installedGames s))"
      and "\<forall>(k, r) \<in> set (installedGames s). r < length (heap s) \<and> appName (heap s ! r) = k"
  shows "distinct (map fst (installedGames (fold (\<lambda>value s'. s'\<lparr>heap := heap s' @ [value],
            installedGames := AList.update (appName value) (length (heap s')) (installedGames s')\<rparr>) xs s)))
       \<and> (\<forall>(k, r) \<in> set (installedGames (fold (\<lambda>value s'. s'\<lparr>heap := heap s' @ [value],
            installedGames := AList.update (appName value) (length (heap s')) (installedGames s')\<rparr>) xs s)).
             r < length (heap (fold (\<lambda>value s'. s'\<lparr>heap := heap s' @ [value],
            installedGames := AList.update (appName value) (length (heap s')) (installedGames s')\<rparr>) xs s))
           \<and> appName (heap (fold (\<lambda>value s'. s'\<lparr>heap := heap s' @ [value],
            installedGames := AList.update (appName value) (length (heap s')) (installedGames s')\<rparr>) xs s) ! r) = k)"
  using assms
proof (induction xs arbitrary: s)
  case Nil
  then show ?case by simp
next
  case (Cons x xs)
  define s1 :: state where "s1 = s\<lparr>heap := heap s @ [x],
            installedGames := AList.update (appName x) (length (heap s)) (installedGames s)\<rparr>"
  have d: "distinct (map fst (installedGames s1))"
    using Cons.prems(1) by (simp add: s1_def AList.distinct_update)
  have e: "\<forall>(k, r) \<in> set (installedGames s1). r < length (heap s1) \<and> appName (heap s1 ! r) = k"
  proof (clarify)
    fix k r assume "(k, r) \<in> set (installedGames s1)"
    with set_update_subset[of "appName x" "length (heap s)" "installedGames s"]
    have "(k, r) = (appName x, length (heap s)) \<or> (k, r) \<in> set (installedGames s)"
      by (auto simp: s1_def)
    then show "r < length (heap s1) \<and> appName (heap s1 ! r) = k"
      using Cons.prems(2) by (auto simp: s1_def nth_append)
  qed
  from Cons.IH[OF d e] show ?case by (simp add: s1_def)
qed

lemma refreshInstalled_distinct_appNames:
  "distinct (map appName (installed_values (refreshInstalled s)))"
proof -
  have "distinct (map fst (installedGames (refreshInstalled s)))
      \<and> (\<forall>(k, r) \<in> set (installedGames (refreshInstalled s)).
            r < length (heap (refreshInstalled s)) \<and> appName (heap (refreshInstalled s) ! r) = k)"
    unfolding refreshInstalled_def Let_def
    by (rule refresh_fold_inv) simp_all
  then have d: "distinct (map fst (installedGames (refreshInstalled s)))"
    and k: "\<forall>(k, r) \<in> set (installedGames (refreshInstalled s)). appName (heap (refreshInstalled s) ! r) = k"
    by auto
  from k have "map appName (installed_values (refreshInstalled s)) = map fst (installedGames (refreshInstalled s))"
    by (auto simp: installed_values_def)
  with d show ?thesis by simp
qed

lemma ex_loaded_is_refreshed: "refreshInstalled ex_state = ex_loaded"
  by (simp add: refreshInstalled_def ex_state_def ex_loaded_def ex_installed_def)

subsection \<open>The claims about \<open>sync\<close>\<close>

lemma ex_env_session:
  "isLoggedIn ex_env" "getCredentials ex_env = Some ''tok''"
  "getFilteredProducts ex_env ''tok'' 1
     = Inr \<lparr>products = Some [ex_game1], totalPages = 2, totalProducts = 2, moviesCount = 0\<rparr>"
  "products \<lparr>products = Some [ex_game1], totalPages = 2, totalProducts = 2, moviesCount = 0\<rparr>
     = Some [ex_game1]"
  "\<forall>p \<in> set [2..<Suc (totalPages \<lparr>products = Some [ex_game1], totalPages = 2,
                                     totalProducts = 2, moviesCount = 0\<rparr>)].
      \<not> isl (getFilteredProducts ex_env ''tok'' p)"
  by (simp_all add: ex_env_def ex_page_def)

lemma ex_merged_catalog:
  "merged_catalog ex_env ''tok'' (totalPages \<lparr>products = Some [ex_game1], totalPages = 2,
                                     totalProducts = 2, moviesCount = 0\<rparr>) = [ex_game1, ex_game2]"
  by (simp add: merged_catalog_def catalog_pages_def page_products_def ex_env_def ex_page_def)

text \<open>
  Claim C8, as stated, fails where the first answer does not agree with itself. With one
  product on a first page that reports zero pages, every request made is answered and
  the merged array has one entry, while the product counts of pages 1 to the reported
  total sum to zero. With a first answer that has no product list and reports two pages,
  no further page is requested and the merged array is empty, while the second page, which
  would be answered, holds one product.
\<close>

theorem merged_length_differs_counterexample:
  "getFilteredProducts ex_env_zero ''tok'' 1 = Inr ex_answer_zero
   \<and> totalPages ex_answer_zero = 0
   \<and> fst (projr (sync_catalog ex_env_zero ''tok'' ex_answer_zero ex_state)) = [ex_game1]
   \<and> isl (sync ex_env_zero ex_state) = False
   \<and> length (persisted_games (sync ex_env_zero ex_state)) = 1
   \<and> page_count_sum ex_env_zero ''tok'' (totalPages ex_answer_zero) = 0
   \<and> getFilteredProducts ex_env_noprod ''tok'' 1 = Inr ex_answer_noprod
   \<and> isl (getFilteredProducts ex_env_noprod ''tok'' 2) = False
   \<and> totalPages ex_answer_noprod = 2
   \<and> fst (projr (sync_catalog ex_env_noprod ''tok'' ex_answer_noprod ex_state)) = []
   \<and> isl (sync ex_env_noprod ex_state) = False
   \<and> length (persisted_games (sync ex_env_noprod ex_state)) = 0
   \<and> page_count_sum ex_env_noprod ''tok'' (totalPages ex_answer_noprod) = 1"
  by code_simp

text \<open>
  Claim C8, amended. With a session and credentials, when the first request is answered
  with a product list, every request for a page from 2 to the reported total is answered,
  and the reported total counts the first page (it is at least 1, or the first page is
  empty), the merged catalog array of \<open>sync\<close> is the concatenation, in order, of the
  product lists of pages 1 to the reported total, so its length is the sum of their
  lengths; \<open>sync\<close> returns and writes one record per entry, in the same order, each under
  the key of its entry, and these keys are distinct when the identifiers of the entries
  are.
\<close>

theorem sync_merges_all_pages:
  assumes "isLoggedIn env" and "getCredentials env = Some tok"
      and "getFilteredProducts env tok 1 = Inr r1" and "products r1 = Some ps1"
      and "\<forall>p \<in> set [2..<Suc (totalPages r1)]. \<not> isl (getFilteredProducts env tok p)"
      and "1 \<le> totalPages r1 \<or> ps1 = []"
  shows "\<exists>s' arr lg.
           sync_catalog env tok r1 s0 = Inr (merged_catalog env tok (totalPages r1), s0\<lparr>log := log s0 @ lg\<rparr>)
         \<and> merged_catalog env tok (totalPages r1)
             = concat (map (page_products env tok) [1..<Suc (totalPages r1)])
         \<and> length (merged_catalog env tok (totalPages r1)) = page_count_sum env tok (totalPages r1)
         \<and> sync env s = Inr s' \<and> games (libraryStore s') = Some arr
         \<and> length arr = page_count_sum env tok (totalPages r1)
         \<and> map app_name arr = map game_key (merged_catalog env tok (totalPages r1))
         \<and> (distinct (map info_id (merged_catalog env tok (totalPages r1))) \<longrightarrow> distinct (map app_name arr))"
proof -
  from sync_catalog_all[OF assms(3,4,5), of s0] obtain lg where
    cat: "sync_catalog env tok r1 s0
            = Inr (merged_catalog env tok (totalPages r1), s0\<lparr>log := log s0 @ lg\<rparr>)"
    by blast
  have pp1: "page_products env tok 1 = ps1"
    using assms(3,4) by (simp add: page_products_def)
  have pages: "concat (map (page_products env tok) (catalog_pages (totalPages r1)))
                 = concat (map (page_products env tok) [1..<Suc (totalPages r1)])"
  proof (cases "1 \<le> totalPages r1")
    case True
    then have "[1..<Suc (totalPages r1)] = catalog_pages (totalPages r1)"
      by (simp add: catalog_pages_def upt_conv_Cons numeral_2_eq_2 del: upt_Suc)
    then show ?thesis by simp
  next
    case False
    with assms(6) have "ps1 = []" "totalPages r1 = 0" by auto
    with pp1 show ?thesis by (simp add: catalog_pages_def)
  qed
  then have merged: "merged_catalog env tok (totalPages r1)
             = concat (map (page_products env tok) [1..<Suc (totalPages r1)])"
    by (simp add: merged_catalog_def)
  have len: "length (merged_catalog env tok (totalPages r1)) = page_count_sum env tok (totalPages r1)"
    unfolding merged by (simp add: page_count_sum_def length_concat comp_def)
  from sync_completes_fields[OF assms(1-5), of s] obtain lg2 s' where
    s': "sync env s = Inr s'"
    and ls: "libraryStore s' = (libraryStore s)
            \<lparr>games := Some (fst (sync_games env (games (libraryStore s))
                                  (merged_catalog env tok (totalPages r1))
                                  ([], (refreshInstalled s)\<lparr>log := lg2\<rparr>))),
             totalGames := Some (totalProducts r1),
             totalMovies := Some (moviesCount r1)\<rparr>"
    by blast
  define arr where "arr = fst (sync_games env (games (libraryStore s))
                                  (merged_catalog env tok (totalPages r1))
                                  ([], (refreshInstalled s)\<lparr>log := lg2\<rparr>))"
  have g: "games (libraryStore s') = Some arr" by (simp add: ls arr_def)
  have names: "map app_name arr = map game_key (merged_catalog env tok (totalPages r1))"
    unfolding arr_def by (rule sync_games_app_names)
  then have "length arr = length (merged_catalog env tok (totalPages r1))"
    by (metis length_map)
  with len have larr: "length arr = page_count_sum env tok (totalPages r1)" by simp
  have dist: "distinct (map app_name arr)"
    if "distinct (map info_id (merged_catalog env tok (totalPages r1)))"
    using that names by (simp add: distinct_game_keys)
  from cat merged len s' g larr names dist show ?thesis
    by (intro exI[of _ s'] exI[of _ arr] exI[of _ lg]) simp
qed

theorem sync_merges_all_pages_witness:
  "\<exists>s' arr. sync ex_env ex_state = Inr s' \<and> games (libraryStore s') = Some arr
     \<and> length arr = page_count_sum ex_env ''tok'' 2 \<and> page_count_sum ex_env ''tok'' 2 = 2
     \<and> map app_name arr = [game_key ex_game1, game_key ex_game2]"
proof -
  have 6: "1 \<le> totalPages \<lparr>products = Some [ex_game1], totalPages = 2, totalProducts = 2, moviesCount = 0\<rparr>
             \<or> [ex_game1] = []" by simp
  have n: "totalPages \<lparr>products = Some [ex_game1], totalPages = 2, totalProducts = 2, moviesCount = 0\<rparr> = 2"
    by simp
  have c: "page_count_sum ex_env ''tok'' 2 = 2" by code_simp
  from sync_merges_all_pages[OF ex_env_session 6, of ex_state ex_state] c
  show ?thesis
    unfolding ex_merged_catalog unfolding n by auto
qed

text \<open>
  Claim C2. When \<open>sync\<close> completes, every record of the array it writes under \<open>games\<close>
  is a record of the previously persisted array or a freshly built one, which is not
  installed and has the blank install literal. The record cached in the library map for
  an entry (the last one of its key) is the copy of the record written for that entry,
  with the installed state attached to the copy. And the Library Store written does not
  depend on the Installed Store or on the in-memory maps: from any state with the same
  Library Store and metadata cache, \<open>sync\<close> writes the same.
\<close>

theorem sync_writes_original_records:
  assumes "isLoggedIn env" and "getCredentials env = Some tok"
      and "getFilteredProducts env tok 1 = Inr r1" and "products r1 = Some ps1"
      and "\<forall>p \<in> set [2..<Suc (totalPages r1)]. \<not> isl (getFilteredProducts env tok p)"
  shows "\<exists>s' arr. sync env s = Inr s' \<and> games (libraryStore s') = Some arr
       \<and> (\<forall>u \<in> set arr. u \<in> set (case games (libraryStore s) of Some old \<Rightarrow> old | None \<Rightarrow> [])
                         \<or> (\<not> is_installed u \<and> install u = blank_install))
       \<and> (\<forall>i < length (merged_catalog env tok (totalPages r1)).
            (\<forall>j. i < j \<and> j < length (merged_catalog env tok (totalPages r1))
                  \<longrightarrow> game_key (merged_catalog env tok (totalPages r1) ! j)
                       \<noteq> game_key (merged_catalog env tok (totalPages r1) ! i))
            \<longrightarrow> getGameInfo s' (game_key (merged_catalog env tok (totalPages r1) ! i))
                  = Some (attach_installed
                            (map_of (installedGames s') (game_key (merged_catalog env tok (totalPages r1) ! i)))
                            (arr ! i)))
       \<and> (\<forall>t. libraryStore t = libraryStore s \<and> apiInfoCache t = apiInfoCache s
              \<longrightarrow> (\<exists>t'. sync env t = Inr t' \<and> libraryStore t' = libraryStore s'))"
proof -
  define cat where "cat = merged_catalog env tok (totalPages r1)"
  from sync_completes_fields[OF assms, of s, folded cat_def] obtain lg s' where
    s': "sync env s = Inr s'"
    and ls: "libraryStore s' = (libraryStore s)
            \<lparr>games := Some (fst (sync_games env (games (libraryStore s)) cat
                                  ([], (refreshInstalled s)\<lparr>log := lg\<rparr>))),
             totalGames := Some (totalProducts r1),
             totalMovies := Some (moviesCount r1)\<rparr>"
    and lib: "library s' = library (snd (sync_games env (games (libraryStore s)) cat
                                  ([], (refreshInstalled s)\<lparr>log := lg\<rparr>)))"
    and ig: "installedGames s' = installedGames (refreshInstalled s)"
    by blast
  define s3 where "s3 = (refreshInstalled s)\<lparr>log := lg\<rparr>"
  define arr where "arr = fst (sync_games env (games (libraryStore s)) cat ([], s3))"
  have g: "games (libraryStore s') = Some arr" by (simp add: ls arr_def s3_def)
  have origin: "\<forall>u \<in> set arr. u \<in> set (case games (libraryStore s) of Some old \<Rightarrow> old | None \<Rightarrow> [])
                         \<or> (\<not> is_installed u \<and> install u = blank_install)"
    unfolding arr_def by (rule sync_games_origin)
  have copy: "getGameInfo s' (game_key (cat ! i))
                = Some (attach_installed (map_of (installedGames s') (game_key (cat ! i))) (arr ! i))"
    if "i < length cat" "\<forall>j. i < j \<and> j < length cat \<longrightarrow> game_key (cat ! j) \<noteq> game_key (cat ! i)" for i
    using sync_games_library_copy[OF that, of env "games (libraryStore s)" s3]
    by (simp add: getGameInfo_def lib ig arr_def s3_def)
  have ni: "\<exists>t'. sync env t = Inr t' \<and> libraryStore t' = libraryStore s'"
    if t: "libraryStore t = libraryStore s \<and> apiInfoCache t = apiInfoCache s" for t
  proof -
    from sync_completes_fields[OF assms, of t, folded cat_def] obtain lg' t' where
      t': "sync env t = Inr t'"
      and lt: "libraryStore t' = (libraryStore t)
            \<lparr>games := Some (fst (sync_games env (games (libraryStore t)) cat
                                  ([], (refreshInstalled t)\<lparr>log := lg'\<rparr>))),
             totalGames := Some (totalProducts r1),
             totalMovies := Some (moviesCount r1)\<rparr>"
      by blast
    have "apiInfoCache ((refreshInstalled t)\<lparr>log := lg'\<rparr>) = apiInfoCache s3"
      using t by (simp add: s3_def)
    from sync_games_cache_only[OF this, of env "games (libraryStore s)" cat]
    have "libraryStore t' = libraryStore s'"
      using t by (simp add: lt ls s3_def)
    with t' show ?thesis by blast
  qed
  from s' g origin copy ni show ?thesis
    unfolding cat_def by blast
qed


theorem sync_writes_original_records_witness:
  "\<exists>s' arr. sync ex_env ex_state = Inr s' \<and> games (libraryStore s') = Some arr
     \<and> (\<forall>u \<in> set arr. \<not> is_installed u \<and> install u = blank_install)"
proof -
  have old: "games (libraryStore ex_state) = None" by (simp add: ex_state_def)
  from sync_writes_original_records[OF ex_env_session, of ex_state]
  show ?thesis
    unfolding old by auto
qed

text \<open>
  Claim C1, as stated, fails: in the scenario the title 7 is in the Installed Store and
  in the fetched catalog, \<open>sync\<close> completes, and its entry in the persisted array is not
  installed and has the blank install literal.
\<close>

theorem persisted_entry_not_installed_counterexample:
  "installedGamesStore ex_state = Some [ex_installed]
   \<and> appName ex_installed = game_key ex_game1
   \<and> merged_catalog ex_env ''tok'' 2 = [ex_game1, ex_game2]
   \<and> isl (sync ex_env ex_state) = False
   \<and> map app_name (persisted_games (sync ex_env ex_state)) = [game_key ex_game1, game_key ex_game2]
   \<and> map is_installed (persisted_games (sync ex_env ex_state)) = [False, False]
   \<and> map install (persisted_games (sync ex_env ex_state)) = [blank_install, blank_install]"
  by code_simp

text \<open>
  Claim C1, amended. When \<open>sync\<close> completes, for every title of the fetched catalog that
  has a record in the Installed Store, the record cached in the in-memory library map
  (the one \<open>getGameInfo\<close> returns) has \<open>is_installed = true\<close>, and its \<open>install\<close> is the
  object the installed map holds for the title, whose content is the last record of the
  Installed Store with that \<open>appName\<close>. The entry written for the title in the persisted
  array is the record of the previously persisted array with the title's key, as it was,
  when there is one, and otherwise a freshly built record, which is not installed and has
  the blank install literal.
\<close>

theorem sync_attaches_install_in_memory:
  assumes "isLoggedIn env" and "getCredentials env = Some tok"
      and "getFilteredProducts env tok 1 = Inr r1" and "products r1 = Some ps1"
      and "\<forall>p \<in> set [2..<Suc (totalPages r1)]. \<not> isl (getFilteredProducts env tok p)"
      and "installedGamesStore s = Some installedArray"
      and "g \<in> set (merged_catalog env tok (totalPages r1))"
      and "v \<in> set installedArray" and "appName v = game_key g"
  shows "\<exists>s' c r arr. sync env s = Inr s' \<and> getGameInfo s' (game_key g) = Some c
       \<and> is_installed c \<and> install c = Shared r
       \<and> map_of (installedGames s') (game_key g) = Some r
       \<and> r < length (heap s')
       \<and> heap s' ! r = last (filter (\<lambda>w. appName w = game_key g) installedArray)
       \<and> appName (heap s' ! r) = game_key g \<and> heap s' ! r \<in> set installedArray
       \<and> games (libraryStore s') = Some arr
       \<and> length arr = length (merged_catalog env tok (totalPages r1))
       \<and> (\<forall>i < length arr. merged_catalog env tok (totalPages r1) ! i = g \<longrightarrow>
             app_name (arr ! i) = game_key g
           \<and> (\<forall>old u. games (libraryStore s) = Some old
                     \<and> find (\<lambda>value. app_name value = game_key g) old = Some u \<longrightarrow> arr ! i = u)
           \<and> (arr ! i \<in> set (case games (libraryStore s) of Some old \<Rightarrow> old | None \<Rightarrow> [])
              \<or> (\<not> is_installed (arr ! i) \<and> install (arr ! i) = blank_install)))"
proof -
  define cat where "cat = merged_catalog env tok (totalPages r1)"
  from sync_completes_fields[OF assms(1-5), of s, folded cat_def] obtain lg s' where
    s': "sync env s = Inr s'"
    and ls: "libraryStore s' = (libraryStore s)
            \<lparr>games := Some (fst (sync_games env (games (libraryStore s)) cat
                                  ([], (refreshInstalled s)\<lparr>log := lg\<rparr>))),
             totalGames := Some (totalProducts r1),
             totalMovies := Some (moviesCount r1)\<rparr>"
    and lib: "library s' = library (snd (sync_games env (games (libraryStore s)) cat
                                  ([], (refreshInstalled s)\<lparr>log := lg\<rparr>)))"
    and hp: "heap s' = heap (refreshInstalled s)"
    and ig: "installedGames s' = installedGames (refreshInstalled s)"
    by blast
  define arr where "arr = fst (sync_games env (games (libraryStore s)) cat
                                  ([], (refreshInstalled s)\<lparr>log := lg\<rparr>))"
  have ga: "games (libraryStore s') = Some arr" by (simp add: ls arr_def)
  have names: "map app_name arr = map game_key cat"
    unfolding arr_def by (rule sync_games_app_names)
  then have larr: "length arr = length cat" by (metis length_map)
  have origin: "\<forall>u \<in> set arr. u \<in> set (case games (libraryStore s) of Some old \<Rightarrow> old | None \<Rightarrow> [])
                         \<or> (\<not> is_installed u \<and> install u = blank_install)"
    unfolding arr_def by (rule sync_games_origin)
  have entry: "app_name (arr ! i) = game_key g
           \<and> (\<forall>old u. games (libraryStore s) = Some old
                     \<and> find (\<lambda>value. app_name value = game_key g) old = Some u \<longrightarrow> arr ! i = u)
           \<and> (arr ! i \<in> set (case games (libraryStore s) of Some old \<Rightarrow> old | None \<Rightarrow> [])
              \<or> (\<not> is_installed (arr ! i) \<and> install (arr ! i) = blank_install))"
    if i: "i < length arr" and gi: "cat ! i = g" for i
  proof (intro conjI allI impI)
    from i larr have ic: "i < length cat" by simp
    from names i ic gi show "app_name (arr ! i) = game_key g"
      by (metis nth_map)
    from origin i show "arr ! i \<in> set (case games (libraryStore s) of Some old \<Rightarrow> old | None \<Rightarrow> [])
              \<or> (\<not> is_installed (arr ! i) \<and> install (arr ! i) = blank_install)"
      by simp
    fix old u
    assume "games (libraryStore s) = Some old
              \<and> find (\<lambda>value. app_name value = game_key g) old = Some u"
    with sync_games_reused[OF ic, of old u env "(refreshInstalled s)\<lparr>log := lg\<rparr>"] gi
    show "arr ! i = u" by (simp add: arr_def)
  qed
  from refreshInstalled_lookup[OF assms(6,8,9)] obtain r where
    r: "map_of (installedGames (refreshInstalled s)) (game_key g) = Some r"
       "r < length (heap (refreshInstalled s))"
       "heap (refreshInstalled s) ! r = last (filter (\<lambda>w. appName w = game_key g) installedArray)"
    by blast
  have ne: "filter (\<lambda>w. appName w = game_key g) installedArray \<noteq> []"
    using assms(8,9) by (auto simp: filter_empty_conv)
  from last_in_set[OF ne] have mem: "last (filter (\<lambda>w. appName w = game_key g) installedArray)
      \<in> set (filter (\<lambda>w. appName w = game_key g) installedArray)" .
  have r': "map_of (installedGames ((refreshInstalled s)\<lparr>log := lg\<rparr>)) (game_key g) = Some r"
    using r(1) by simp
  have "game_key g \<in> game_key ` set cat" using assms(7) by (simp add: cat_def)
  from sync_games_library_installed[OF r' disjI1[OF this], of env "games (libraryStore s)"]
  obtain c where c: "map_of (library s') (game_key g) = Some c" "is_installed c" "install c = Shared r"
    unfolding lib by blast
  have mem1: "getGameInfo s' (game_key g) = Some c
       \<and> is_installed c \<and> install c = Shared r
       \<and> map_of (installedGames s') (game_key g) = Some r
       \<and> r < length (heap s')
       \<and> heap s' ! r = last (filter (\<lambda>w. appName w = game_key g) installedArray)
       \<and> appName (heap s' ! r) = game_key g \<and> heap s' ! r \<in> set installedArray"
    using c r mem by (simp add: getGameInfo_def hp ig)
  from s' mem1 ga larr entry show ?thesis
    unfolding cat_def[symmetric]
    by (intro exI[of _ s'] exI[of _ c] exI[of _ r] exI[of _ arr]) blast
qed

theorem sync_attaches_install_in_memory_witness:
  "\<exists>s' c r arr. sync ex_env ex_state = Inr s' \<and> getGameInfo s' (game_key ex_game1) = Some c
       \<and> is_installed c \<and> install c = Shared r \<and> heap s' ! r = ex_installed
       \<and> games (libraryStore s') = Some arr \<and> length arr = 2
       \<and> \<not> is_installed (arr ! 0) \<and> install (arr ! 0) = blank_install"
proof -
  have 6: "installedGamesStore ex_state = Some [ex_installed]" by (simp add: ex_state_def)
  have 7: "ex_game1 \<in> set (merged_catalog ex_env ''tok''
            (totalPages \<lparr>products = Some [ex_game1], totalPages = 2, totalProducts = 2, moviesCount = 0\<rparr>))"
    unfolding ex_merged_catalog by simp
  have 8: "ex_installed \<in> set [ex_installed]" by simp
  have 9: "appName ex_installed = game_key ex_game1" by code_simp
  have old: "games (libraryStore ex_state) = None" by (simp add: ex_state_def)
  from sync_attaches_install_in_memory[OF ex_env_session 6 7 8 9]
  obtain s' c r arr where
    a: "sync ex_env ex_state = Inr s'" "getGameInfo s' (game_key ex_game1) = Some c"
       "is_installed c" "install c = Shared r"
       "heap s' ! r = last (filter (\<lambda>w. appName w = game_key ex_game1) [ex_installed])"
       "games (libraryStore s') = Some arr"
       "length arr = length [ex_game1, ex_game2]"
    and e: "\<forall>i < length arr. [ex_game1, ex_game2] ! i = ex_game1 \<longrightarrow>
             app_name (arr ! i) = game_key ex_game1
           \<and> (\<forall>old u. games (libraryStore ex_state) = Some old
                     \<and> find (\<lambda>value. app_name value = game_key ex_game1) old = Some u \<longrightarrow> arr ! i = u)
           \<and> (arr ! i \<in> set (case games (libraryStore ex_state) of Some old \<Rightarrow> old | None \<Rightarrow> [])
              \<or> (\<not> is_installed (arr ! i) \<and> install (arr ! i) = blank_install))"
    unfolding ex_merged_catalog by blast
  from e[rule_format, of 0] a(7) old
  have p: "\<not> is_installed (arr ! 0) \<and> install (arr ! 0) = blank_install" by simp
  from a(5) 9 have h: "heap s' ! r = ex_installed" by simp
  from a(1-4) h a(6,7) p show ?thesis by auto
qed

text \<open>
  Claim C3, as stated, fails when the catalog lists one identifier twice: from an empty
  Library Store the first \<open>sync\<close> builds a record for each of the two entries, and the
  second finds the first of them for both.
\<close>

theorem sync_twice_differs_counterexample:
  "isl (sync ex_env_dup ex_state) = False \<and> isl (sync_twice ex_env_dup ex_state) = False
   \<and> map title (persisted_games (sync ex_env_dup ex_state)) = [''Alpha'', ''Gamma'']
   \<and> map title (persisted_games (sync_twice ex_env_dup ex_state)) = [''Alpha'', ''Alpha'']"
  by code_simp

text \<open>
  Claim C3, amended. When the identifiers of the fetched catalog are distinct and \<open>sync\<close>
  completes, a second \<open>sync\<close> against the same remote answers completes too and leaves
  the Library Store as the first one wrote it, the catalog array included; and in the
  first call every record found by its key in the previously persisted array is the
  record written at the position of its entry.
\<close>

theorem sync_idempotent_on_distinct_ids:
  assumes "isLoggedIn env" and "getCredentials env = Some tok"
      and "getFilteredProducts env tok 1 = Inr r1" and "products r1 = Some ps1"
      and "\<forall>p \<in> set [2..<Suc (totalPages r1)]. \<not> isl (getFilteredProducts env tok p)"
      and "distinct (map info_id (merged_catalog env tok (totalPages r1)))"
  shows "\<exists>s1 s2 arr. sync env s = Inr s1 \<and> sync env s1 = Inr s2
       \<and> games (libraryStore s1) = Some arr \<and> games (libraryStore s2) = Some arr
       \<and> libraryStore s2 = libraryStore s1
       \<and> (\<forall>i < length (merged_catalog env tok (totalPages r1)). \<forall>old u.
             games (libraryStore s) = Some old
           \<and> find (\<lambda>value. app_name value = game_key (merged_catalog env tok (totalPages r1) ! i)) old = Some u
           \<longrightarrow> arr ! i = u)"
proof -
  define cat where "cat = merged_catalog env tok (totalPages r1)"
  from sync_completes_fields[OF assms(1-5), of s, folded cat_def] obtain lg s1 where
    s1: "sync env s = Inr s1"
    and ls1: "libraryStore s1 = (libraryStore s)
            \<lparr>games := Some (fst (sync_games env (games (libraryStore s)) cat
                                  ([], (refreshInstalled s)\<lparr>log := lg\<rparr>))),
             totalGames := Some (totalProducts r1),
             totalMovies := Some (moviesCount r1)\<rparr>"
    by blast
  define arr where "arr = fst (sync_games env (games (libraryStore s)) cat
                                  ([], (refreshInstalled s)\<lparr>log := lg\<rparr>))"
  have g1: "games (libraryStore s1) = Some arr" by (simp add: ls1 arr_def)
  have names: "map app_name arr = map game_key cat"
    unfolding arr_def by (rule sync_games_app_names)
  have dk: "distinct (map game_key cat)"
    using assms(6) by (simp add: distinct_game_keys cat_def)
  from sync_completes_fields[OF assms(1-5), of s1, folded cat_def] obtain lg2 s2 where
    s2: "sync env s1 = Inr s2"
    and ls2: "libraryStore s2 = (libraryStore s1)
            \<lparr>games := Some (fst (sync_games env (games (libraryStore s1)) cat
                                  ([], (refreshInstalled s1)\<lparr>log := lg2\<rparr>))),
             totalGames := Some (totalProducts r1),
             totalMovies := Some (moviesCount r1)\<rparr>"
    by blast
  have found: "\<forall>h \<in> set cat. find (\<lambda>value. app_name value = game_key h) arr \<noteq> None"
  proof
    fix h assume "h \<in> set cat"
    then have "game_key h \<in> set (map app_name arr)" by (simp add: names)
    then show "find (\<lambda>value. app_name value = game_key h) arr \<noteq> None"
      by (auto simp: find_None_iff)
  qed
  have again: "fst (sync_games env (Some arr) cat ([], (refreshInstalled s1)\<lparr>log := lg2\<rparr>)) = arr"
    using sync_games_all_found[OF found] refound_is_identity[OF names dk] by simp
  have same: "libraryStore s2 = libraryStore s1"
    by (simp add: ls2 g1 again) (simp add: ls1 arr_def)
  have reused: "arr ! i = u"
    if "i < length cat" "games (libraryStore s) = Some old"
       "find (\<lambda>value. app_name value = game_key (cat ! i)) old = Some u" for i old u
    using sync_games_reused[OF that(1,3), of env "(refreshInstalled s)\<lparr>log := lg\<rparr>"] that(2)
    by (simp add: arr_def)
  from s1 s2 g1 same reused show ?thesis
    unfolding cat_def by (intro exI[of _ s1] exI[of _ s2] exI[of _ arr]) auto
qed

theorem sync_idempotent_on_distinct_ids_witness:
  "\<exists>s1 s2. sync ex_env ex_state = Inr s1 \<and> sync ex_env s1 = Inr s2
       \<and> libraryStore s2 = libraryStore s1"
proof -
  have d: "distinct (map info_id (merged_catalog ex_env ''tok''
            (totalPages \<lparr>products = Some [ex_game1], totalPages = 2, totalProducts = 2, moviesCount = 0\<rparr>)))"
    unfolding ex_merged_catalog by (simp add: ex_game1_def ex_game2_def)
  from sync_idempotent_on_distinct_ids[OF ex_env_session d, of ex_state]
  show ?thesis by blast
qed

end
